theory Spec2Isabelle
  imports Complex_Main "HOL-Library.AList"
begin

section \<open>Data model\<close>

text \<open>
  The types of the application (the declarations that follow the service code in
  \<^verbatim>\<open>src/services/geminiService.ts\<close>): the enums \<^verbatim>\<open>AttendanceStatus\<close> and
  \<^verbatim>\<open>EnrollmentStatus\<close> and the interfaces \<^verbatim>\<open>Student\<close>, \<^verbatim>\<open>ClassGroup\<close>,
  \<^verbatim>\<open>PendingChange\<close>, \<^verbatim>\<open>AttendanceRecord\<close>, \<^verbatim>\<open>ClassAttendance\<close> and
  \<^verbatim>\<open>BimesterConfig\<close>.
\<close>

datatype AttendanceStatus = PRESENT | ABSENT | EXCUSED | UNDEFINED

datatype EnrollmentStatus = ACTIVE | DROPOUT | TRANSFERRED | OTHER

text \<open>
  The string value of each member of the enum:
  \<^verbatim>\<open>PRESENT = 'P', ABSENT = 'F', EXCUSED = 'J', UNDEFINED = '-'\<close>. The code tests
  these values for truthiness (\<^verbatim>\<open>x || UNDEFINED\<close>, \<^verbatim>\<open>if (forcedStatus)\<close>).
\<close>

fun status_value :: "AttendanceStatus \<Rightarrow> string" where
  "status_value PRESENT = ''P''"
| "status_value ABSENT = ''F''"
| "status_value EXCUSED = ''J''"
| "status_value UNDEFINED = ''-''"

text \<open>A JavaScript string is truthy when it is not empty.\<close>

definition truthy :: "string \<Rightarrow> bool" where
  "truthy s = (s \<noteq> [])"

text \<open>
  \<^verbatim>\<open>x || AttendanceStatus.UNDEFINED\<close>, where \<^verbatim>\<open>x\<close> is an array element or
  \<^verbatim>\<open>undefined\<close> (an index out of range, \<open>None\<close> here).
\<close>

definition or_UNDEFINED :: "AttendanceStatus option \<Rightarrow> AttendanceStatus" where
  "or_UNDEFINED x =
     (case x of
        None \<Rightarrow> UNDEFINED
      | Some v \<Rightarrow> if truthy (status_value v) then v else UNDEFINED)"

text \<open>\<^verbatim>\<open>arr[i]\<close> in JavaScript: \<^verbatim>\<open>undefined\<close> out of range.\<close>

definition js_index :: "'a list \<Rightarrow> nat \<Rightarrow> 'a option" where
  "js_index arr i = (if i < length arr then Some (arr ! i) else None)"

record Student =
  s_id :: string
  s_name :: string
  s_status :: EnrollmentStatus
  s_classId :: "string option"

record ClassGroup =
  c_id :: string
  c_name :: string

record PendingChange =
  studentId :: string
  date :: string
  lessonIndex :: nat
  status :: AttendanceStatus
  subject :: "string option"
  topic :: "string option"

text \<open>
  \<^verbatim>\<open>AttendanceRecord\<close>, an object from date strings to arrays of statuses: the
  entries of one student in the order of \<^verbatim>\<open>Object.entries\<close>, which lists the keys
  that are array indices first, in ascending order, and then the other keys in the order
  in which they were created. \<^verbatim>\<open>ClassAttendance\<close> maps a student id to them.
\<close>

type_synonym AttendanceRecord = "(string \<times> AttendanceStatus list) list"

text \<open>The class \<^verbatim>\<open>\d\<close> of a JavaScript regular expression: the ten ASCII digits.\<close>

definition is_digit :: "char \<Rightarrow> bool" where
  "is_digit ch = (ch \<in> set ''0123456789'')"

definition digit_val :: "char \<Rightarrow> nat" where
  "digit_val ch = of_char ch - 48"

definition digits_value :: "string \<Rightarrow> nat" where
  "digits_value ds = foldl (\<lambda>a ch. 10 * a + digit_val ch) 0 ds"

text \<open>
  A property key is an array index when it is the canonical decimal string of an integer
  from 0 to \<open>2^32 - 2\<close>.
\<close>

definition is_array_index :: "string \<Rightarrow> bool" where
  "is_array_index k =
     (k \<noteq> [] \<and> list_all is_digit k \<and> (k = ''0'' \<or> hd k \<noteq> CHR ''0'')
      \<and> digits_value k < 4294967295)"

text \<open>A new array-index key goes before the first key that is not a smaller array index.\<close>

fun insert_index :: "string \<Rightarrow> 'v \<Rightarrow> (string \<times> 'v) list \<Rightarrow> (string \<times> 'v) list" where
  "insert_index k v [] = [(k, v)]"
| "insert_index k v ((k', v') # r) =
     (if is_array_index k' \<and> digits_value k' < digits_value k then (k', v') # insert_index k v r
      else (k, v) # (k', v') # r)"

text \<open>
  \<^verbatim>\<open>obj[k] = v\<close> (and \<^verbatim>\<open>{...obj, [k]: v}\<close>) on the entries of an object: a key
  that the object has keeps its place, a new array-index key is put in numeric order and
  any other new key goes last.
\<close>

definition js_put :: "string \<Rightarrow> 'v \<Rightarrow> (string \<times> 'v) list \<Rightarrow> (string \<times> 'v) list" where
  "js_put k v entries =
     (if k \<in> fst ` set entries then AList.update k v entries
      else if is_array_index k then insert_index k v entries
      else entries @ [(k, v)])"

type_synonym ClassAttendance = "string \<rightharpoonup> AttendanceRecord"

type_synonym LessonSubjectMap = "string \<rightharpoonup> (nat \<rightharpoonup> string)"

datatype ViewMode = CLASS | DASHBOARD | STUDENTS | REPORTS | DIARY

text \<open>The state of the \<^verbatim>\<open>App\<close> component that the handlers read and write.\<close>

record AppState =
  isSaving :: bool
  isOnline :: bool
  classes :: "ClassGroup list"
  allStudents :: "Student list"
  attendance :: ClassAttendance
  dailyLessonConfig :: "string \<rightharpoonup> nat list"
  lessonSubjects :: LessonSubjectMap
  lessonTopics :: LessonSubjectMap
  pendingChanges :: "PendingChange list"
  viewMode :: ViewMode
  selectedClassId :: string
  classToDelete :: "ClassGroup option"
  isSettingsOpen :: bool
  loading :: bool

section \<open>Status transition engine (\<^verbatim>\<open>App.tsx\<close>, \<^verbatim>\<open>handleToggleStatus\<close>)\<close>

text \<open>The template string \<^verbatim>\<open>`${selectedClassId}_${date}`\<close>.\<close>

definition configKey :: "string \<Rightarrow> string \<Rightarrow> string" where
  "configKey cid d = cid @ ''_'' @ d"

text \<open>
  \<^verbatim>\<open>while (arr.length <= lessonIndex) arr.push(UNDEFINED)\<close>, the padding loop of
  \<^verbatim>\<open>handleToggleStatus\<close> and of \<^verbatim>\<open>transformAttendanceFromApi\<close>.
\<close>

function pad_undefined :: "AttendanceStatus list \<Rightarrow> nat \<Rightarrow> AttendanceStatus list" where
  "pad_undefined arr i = (if length arr \<le> i then pad_undefined (arr @ [UNDEFINED]) i else arr)"
  by pat_completeness auto
termination
  by (relation "measure (\<lambda>(arr, i). Suc i - length arr)") auto

declare pad_undefined.simps [simp del]

text \<open>
  \<^verbatim>\<open>dailyLessonConfig[configKey] || dailyLessonConfig[date] || [0]\<close>: an array is
  truthy even when empty, so \<^verbatim>\<open>||\<close> moves on only when the key is absent.
\<close>

definition toggle_activeLessons :: "AppState \<Rightarrow> string \<Rightarrow> nat list" where
  "toggle_activeLessons c d =
     (case dailyLessonConfig c (configKey (selectedClassId c) d) of
        Some v \<Rightarrow> v
      | None \<Rightarrow> (case dailyLessonConfig c d of Some v \<Rightarrow> v | None \<Rightarrow> [0]))"

definition toggle_subjectsMap :: "AppState \<Rightarrow> string \<Rightarrow> (nat \<rightharpoonup> string)" where
  "toggle_subjectsMap c d =
     (case lessonSubjects c (configKey (selectedClassId c) d) of
        Some m \<Rightarrow> m
      | None \<Rightarrow> (case lessonSubjects c d of Some m \<Rightarrow> m | None \<Rightarrow> Map.empty))"

definition toggle_topicsMap :: "AppState \<Rightarrow> string \<Rightarrow> (nat \<rightharpoonup> string)" where
  "toggle_topicsMap c d =
     (case lessonTopics c (configKey (selectedClassId c) d) of
        Some m \<Rightarrow> m
      | None \<Rightarrow> (case lessonTopics c d of Some m \<Rightarrow> m | None \<Rightarrow> Map.empty))"

text \<open>\<^verbatim>\<open>subjectsMap[lessonIndex] || ''\<close>.\<close>

definition or_empty :: "string option \<Rightarrow> string" where
  "or_empty x = (case x of None \<Rightarrow> [] | Some v \<Rightarrow> v)"

text \<open>
  The array \<^verbatim>\<open>currentDailyStatuses\<close>: a copy of the student's array of that date, or
  \<^verbatim>\<open>Array(maxIndex + 1).fill(UNDEFINED)\<close> with
  \<^verbatim>\<open>maxIndex = Math.max(...activeLessons, lessonIndex)\<close>, then padded up to the index.
  It is read from the \<^verbatim>\<open>attendance\<close> of the render the handler was created in.
\<close>

definition currentDailyStatuses :: "AppState \<Rightarrow> string \<Rightarrow> string \<Rightarrow> nat \<Rightarrow> AttendanceStatus list" where
  "currentDailyStatuses c sid d i =
     (let maxIndex = fold max (toggle_activeLessons c d) i;
          studentRecord = (case attendance c sid of Some r \<Rightarrow> r | None \<Rightarrow> [])
      in pad_undefined
           (case map_of studentRecord d of
              Some arr \<Rightarrow> arr
            | None \<Rightarrow> replicate (maxIndex + 1) UNDEFINED) i)"

text \<open>The fixed cycle of the branch without a forced status.\<close>

definition cycle_status :: "AttendanceStatus \<Rightarrow> AttendanceStatus" where
  "cycle_status currentStatus =
     (if currentStatus = UNDEFINED then PRESENT
      else if currentStatus = PRESENT then ABSENT
      else if currentStatus = ABSENT then EXCUSED
      else UNDEFINED)"

text \<open>
  \<^verbatim>\<open>nextStatus\<close>: the forced status when one is given (and truthy), the cycle applied to
  \<^verbatim>\<open>currentDailyStatuses[lessonIndex] || UNDEFINED\<close> otherwise.
\<close>

definition nextStatus :: "AppState \<Rightarrow> string \<Rightarrow> string \<Rightarrow> nat \<Rightarrow> AttendanceStatus option \<Rightarrow> AttendanceStatus" where
  "nextStatus c sid d i forcedStatus =
     (let cyc = cycle_status (or_UNDEFINED (js_index (currentDailyStatuses c sid d i) i))
      in case forcedStatus of
           None \<Rightarrow> cyc
         | Some f \<Rightarrow> if truthy (status_value f) then f else cyc)"

text \<open>
  The updater of \<^verbatim>\<open>setPendingChanges\<close>: drop the entry of the same cell, append the new
  one.
\<close>

definition enqueue :: "PendingChange list \<Rightarrow> PendingChange \<Rightarrow> PendingChange list" where
  "enqueue prev ch =
     filter (\<lambda>c. \<not> (studentId c = studentId ch \<and> date c = date ch
                      \<and> lessonIndex c = lessonIndex ch)) prev @ [ch]"

text \<open>
  The updater of \<^verbatim>\<open>setAttendance\<close>:
  \<^verbatim>\<open>{...prev, [studentId]: {...prev[studentId], [date]: updatedDailyStatuses}}\<close>.
\<close>

definition set_daily :: "ClassAttendance \<Rightarrow> string \<Rightarrow> string \<Rightarrow> AttendanceStatus list \<Rightarrow> ClassAttendance" where
  "set_daily prev sid d updated =
     prev(sid \<mapsto> js_put d updated (case prev sid of Some r \<Rightarrow> r | None \<Rightarrow> []))"

text \<open>
  \<^verbatim>\<open>handleToggleStatus\<close>. The handler reads the state \<open>c\<close> of the render it was created
  in and queues functional updates, which React applies to the state \<open>s\<close> current at
  that moment. The early \<^verbatim>\<open>return\<close> leaves \<open>s\<close> as it is.
\<close>

definition handleToggleStatus ::
  "AppState \<Rightarrow> string \<Rightarrow> string \<Rightarrow> nat \<Rightarrow> AttendanceStatus option \<Rightarrow> AppState \<Rightarrow> AppState" where
  "handleToggleStatus c sid d i forcedStatus s =
     (let cur = currentDailyStatuses c sid d i;
          nxt = nextStatus c sid d i forcedStatus
      in if js_index cur i = Some nxt then s
         else s\<lparr> attendance := set_daily (attendance s) sid d (cur[i := nxt]),
                 pendingChanges := enqueue (pendingChanges s)
                   \<lparr> studentId = sid, date = d, lessonIndex = i, status = nxt,
                     subject = Some (or_empty (toggle_subjectsMap c d i)),
                     topic = Some (or_empty (toggle_topicsMap c d i)) \<rparr> \<rparr>)"

text \<open>One click on a cell of the grid: the handler of the current render runs alone.\<close>

definition toggle :: "AppState \<Rightarrow> string \<Rightarrow> string \<Rightarrow> nat \<Rightarrow> AppState" where
  "toggle st sid d i = handleToggleStatus st sid d i None st"

text \<open>
  What the grid shows for a cell: \<^verbatim>\<open>(record[date] || [])[lessonIdx] || UNDEFINED\<close> with
  \<^verbatim>\<open>record = attendance[studentId] || {}\<close>.
\<close>

definition cell_status :: "ClassAttendance \<Rightarrow> string \<Rightarrow> string \<Rightarrow> nat \<Rightarrow> AttendanceStatus" where
  "cell_status att sid d i =
     (let record = (case att sid of Some r \<Rightarrow> r | None \<Rightarrow> []);
          statuses = (case map_of record d of Some arr \<Rightarrow> arr | None \<Rightarrow> [])
      in or_UNDEFINED (js_index statuses i))"

section \<open>Bulk update (\<^verbatim>\<open>App.tsx\<close>, \<^verbatim>\<open>handleBulkStatusUpdate\<close>)\<close>

text \<open>
  \<^verbatim>\<open>(studentRecord[date] && studentRecord[date][lessonIndex]) || UNDEFINED\<close> with
  \<^verbatim>\<open>studentRecord = attendance[student.id] || {}\<close>.
\<close>

definition bulk_currentStatus :: "AppState \<Rightarrow> Student \<Rightarrow> string \<Rightarrow> nat \<Rightarrow> AttendanceStatus" where
  "bulk_currentStatus c student d i =
     (let studentRecord = (case attendance c (s_id student) of Some r \<Rightarrow> r | None \<Rightarrow> [])
      in or_UNDEFINED (case map_of studentRecord d of
                         None \<Rightarrow> None
                       | Some arr \<Rightarrow> js_index arr i))"

text \<open>
  \<^verbatim>\<open>classStudents.forEach(...)\<close>. The list \<^verbatim>\<open>classStudents\<close> is the memoised view
  of the render (the roster of the selected class, filtered by the status filter and
  sorted by name); it is an argument here. Every call of \<^verbatim>\<open>handleToggleStatus\<close> in
  the loop reads the same render state \<open>c\<close>, and its updates are applied in order.
\<close>

definition handleBulkStatusUpdate ::
  "AppState \<Rightarrow> Student list \<Rightarrow> string \<Rightarrow> nat \<Rightarrow> AttendanceStatus \<Rightarrow> AppState \<Rightarrow> AppState" where
  "handleBulkStatusUpdate c classStudents d i st s =
     fold (\<lambda>student acc.
             if s_status student \<noteq> ACTIVE then acc
             else if bulk_currentStatus c student d i = UNDEFINED
                  then handleToggleStatus c (s_id student) d i (Some st) acc
                  else acc)
          classStudents s"

text \<open>One click on the bulk button of a lesson column.\<close>

definition bulkApply :: "AppState \<Rightarrow> Student list \<Rightarrow> string \<Rightarrow> nat \<Rightarrow> AttendanceStatus \<Rightarrow> AppState" where
  "bulkApply st classStudents d i v = handleBulkStatusUpdate st classStudents d i v st"

section \<open>Pending-change queue\<close>

definition cell_of :: "PendingChange \<Rightarrow> string \<times> string \<times> nat" where
  "cell_of ch = (studentId ch, date ch, lessonIndex ch)"

text \<open>
  The queue as the spec words it: of a sequence of edits, exactly the latest edit of each
  cell, in the order in which these latest edits were made.
\<close>

fun spec_latest_per_cell :: "PendingChange list \<Rightarrow> PendingChange list" where
  "spec_latest_per_cell [] = []"
| "spec_latest_per_cell (ch # chs) =
     (if cell_of ch \<in> set (map cell_of chs) then spec_latest_per_cell chs
      else ch # spec_latest_per_cell chs)"

text \<open>
  A sequence of clicks on cells of the grid, each handled in the render that follows the
  click before it.
\<close>

definition run_clicks :: "AppState \<Rightarrow> (string \<times> string \<times> nat) list \<Rightarrow> AppState" where
  "run_clicks st clicks = fold (\<lambda>(sid, d, i) acc. toggle acc sid d i) clicks st"

text \<open>
  The edits that these clicks make, in order: for each click its cell, with the status
  that the cycle gives the cell in the state the click finds and the subject and topic
  resolved there.
\<close>

fun edits_of_clicks :: "AppState \<Rightarrow> (string \<times> string \<times> nat) list \<Rightarrow> PendingChange list" where
  "edits_of_clicks st [] = []"
| "edits_of_clicks st ((sid, d, i) # clicks) =
     \<lparr> studentId = sid, date = d, lessonIndex = i,
       status = cycle_status (cell_status (attendance st) sid d i),
       subject = Some (or_empty (toggle_subjectsMap st d i)),
       topic = Some (or_empty (toggle_topicsMap st d i)) \<rparr>
     # edits_of_clicks (toggle st sid d i) clicks"

section \<open>Dates and lesson indices on the wire (\<^verbatim>\<open>services/api.ts\<close>)\<close>

text \<open>
  Strings are lists of code units below 256. \<^verbatim>\<open>String.prototype.trim\<close> strips white
  space and line terminators: among these code units, tab, line feed, vertical tab, form
  feed, carriage return, space and the no-break space.
\<close>

definition is_space :: "char \<Rightarrow> bool" where
  "is_space ch = (ch \<in> set [CHR 0x09, CHR 0x0A, CHR 0x0B, CHR 0x0C, CHR 0x0D, CHR 0x20, CHR 0xA0])"

definition js_trim :: "string \<Rightarrow> string" where
  "js_trim s = rev (dropWhile is_space (rev (dropWhile is_space s)))"

text \<open>
  \<^verbatim>\<open>s.split(sep)\<close> for a separator that is one character of a class: the pieces between
  the separators, \<^verbatim>\<open>[""]\<close> for the empty string.
\<close>

fun split_on :: "(char \<Rightarrow> bool) \<Rightarrow> string \<Rightarrow> string list" where
  "split_on p [] = [[]]"
| "split_on p (x # xs) =
     (if p x then [] # split_on p xs
      else (case split_on p xs of
              [] \<Rightarrow> [[x]]
            | w # ws \<Rightarrow> (x # w) # ws))"

text \<open>\<^verbatim>\<open>toBrDate\<close>: ISO \<^verbatim>\<open>YYYY-MM-DD\<close> to \<^verbatim>\<open>DD-MM-YYYY\<close>.\<close>

definition toBrDate :: "string \<Rightarrow> string" where
  "toBrDate isoDate =
     (if isoDate = [] then []
      else let parts = split_on (\<lambda>ch. ch = CHR ''-'') isoDate
           in if length parts \<noteq> 3 then isoDate
              else parts ! 2 @ ''-'' @ parts ! 1 @ ''-'' @ parts ! 0)"

text \<open>
  \<^verbatim>\<open>/^\d{4}-\d{2}-\d{2}$/\<close>: ten characters, digits but for the hyphens at 4 and 7.
\<close>

definition matches_iso :: "string \<Rightarrow> bool" where
  "matches_iso s =
     (length s = 10
      \<and> is_digit (s ! 0) \<and> is_digit (s ! 1) \<and> is_digit (s ! 2) \<and> is_digit (s ! 3)
      \<and> s ! 4 = CHR ''-'' \<and> is_digit (s ! 5) \<and> is_digit (s ! 6)
      \<and> s ! 7 = CHR ''-'' \<and> is_digit (s ! 8) \<and> is_digit (s ! 9))"

text \<open>
  \<^verbatim>\<open>/^\d{2}[-/]\d{2}[-/]\d{4}$/\<close>: ten characters, digits but for a hyphen or a
  slash at 2 and at 5.
\<close>

definition is_sep :: "char \<Rightarrow> bool" where
  "is_sep ch = (ch = CHR ''-'' \<or> ch = CHR ''/'')"

definition matches_br :: "string \<Rightarrow> bool" where
  "matches_br s =
     (length s = 10
      \<and> is_digit (s ! 0) \<and> is_digit (s ! 1) \<and> is_sep (s ! 2)
      \<and> is_digit (s ! 3) \<and> is_digit (s ! 4) \<and> is_sep (s ! 5)
      \<and> is_digit (s ! 6) \<and> is_digit (s ! 7) \<and> is_digit (s ! 8) \<and> is_digit (s ! 9))"

text \<open>\<^verbatim>\<open>toIsoDate\<close>: \<^verbatim>\<open>DD-MM-YYYY\<close> or \<^verbatim>\<open>DD/MM/YYYY\<close> to ISO; anything else is kept.\<close>

definition toIsoDate :: "string \<Rightarrow> string" where
  "toIsoDate dateStr =
     (if dateStr = [] then []
      else let cleanStr = take 10 (js_trim dateStr)
           in if matches_iso cleanStr then cleanStr
              else if matches_br cleanStr
                   then (let parts = split_on is_sep cleanStr
                         in parts ! 2 @ ''-'' @ parts ! 1 @ ''-'' @ parts ! 0)
                   else cleanStr)"

text \<open>
  \<^verbatim>\<open>parseInt(s, 10)\<close>: leading white space is skipped, then an optional sign, then the
  longest run of digits is read; \<open>None\<close> is \<^verbatim>\<open>NaN\<close> (no digit there).
\<close>

definition parseInt10 :: "string \<Rightarrow> int option" where
  "parseInt10 s =
     (let s1 = dropWhile is_space s;
          neg = (case s1 of [] \<Rightarrow> False | ch # _ \<Rightarrow> ch = CHR ''-'');
          s2 = (case s1 of [] \<Rightarrow> [] | ch # r \<Rightarrow> if ch = CHR ''-'' \<or> ch = CHR ''+'' then r else s1);
          ds = takeWhile is_digit s2
      in if ds = [] then None
         else Some ((if neg then - 1 else 1) * int (digits_value ds)))"

text \<open>
  The decimal string of a natural number, as \<^verbatim>\<open>String(n)\<close> and \<^verbatim>\<open>n.toString()\<close> give
  it for an integer below \<open>10^21\<close>.
\<close>

definition digit_char :: "nat \<Rightarrow> char" where
  "digit_char k = ''0123456789'' ! k"

function nat_str :: "nat \<Rightarrow> string" where
  "nat_str n = (if n < 10 then [digit_char n]
                else nat_str (n div 10) @ [digit_char (n mod 10)])"
  by pat_completeness auto
termination
  by (relation "measure (\<lambda>n. n)") auto

declare nat_str.simps [simp del]

text \<open>
  A raw attendance record of \<^verbatim>\<open>getData()\<close>. The fields are untyped in the code:
  \<open>r_date\<close> is \<open>None\<close> when the value is not a string, \<open>r_lessonIndex\<close> is the string
  that \<^verbatim>\<open>parseInt\<close> converts its argument to, and the status is cast to
  \<^verbatim>\<open>AttendanceStatus\<close> unchecked.
\<close>

record RawRecord =
  r_studentId :: string
  r_date :: "string option"
  r_lessonIndex :: string
  r_status :: AttendanceStatus

text \<open>
  The internal slot of a raw lesson index:
  \<^verbatim>\<open>rawIdx = parseInt(lessonIndex, 10) || 1; if (rawIdx > 20 || rawIdx < 1) rawIdx = 1;\<close>
  \<^verbatim>\<open>idx = Math.max(0, rawIdx - 1)\<close>.
\<close>

definition internal_index :: "string \<Rightarrow> nat" where
  "internal_index lessonIndexRaw =
     (let rawIdx0 = (case parseInt10 lessonIndexRaw of
                       None \<Rightarrow> 1
                     | Some v \<Rightarrow> if v = 0 then 1 else v);
          rawIdx = (if rawIdx0 > 20 \<or> rawIdx0 < 1 then 1 else rawIdx0)
      in nat (max 0 (rawIdx - 1)))"

text \<open>The normalised date of a raw record; the empty string makes the record skipped.\<close>

definition ingest_date :: "RawRecord \<Rightarrow> string" where
  "ingest_date rec = toIsoDate (case r_date rec of Some d \<Rightarrow> d | None \<Rightarrow> [])"

text \<open>
  The objects that \<^verbatim>\<open>transformAttendanceFromApi\<close> builds are plain objects, so a
  lookup \<^verbatim>\<open>obj[key]\<close> of a key the object does not have finds the property of that
  name of \<^verbatim>\<open>Object.prototype\<close> when there is one. These are its names.
\<close>

definition proto_key :: "string \<Rightarrow> bool" where
  "proto_key k =
     (k \<in> set [''constructor'', ''__defineGetter__'', ''__defineSetter__'', ''hasOwnProperty'',
                ''__lookupGetter__'', ''__lookupSetter__'', ''isPrototypeOf'',
                ''propertyIsEnumerable'', ''toString'', ''valueOf'', ''__proto__'',
                ''toLocaleString''])"

text \<open>
  The tests \<^verbatim>\<open>!attendance[studentId]\<close> and \<^verbatim>\<open>!attendance[studentId][dateStr]\<close>
  find an inherited value, which is truthy, when the key is absent from the object and
  names a property of the prototype.
\<close>

definition sees_inherited :: "ClassAttendance \<Rightarrow> string \<Rightarrow> string \<Rightarrow> bool" where
  "sees_inherited att sid dateStr =
     ((att sid = None \<and> proto_key sid)
      \<or> (map_of (case att sid of Some r \<Rightarrow> r | None \<Rightarrow> []) dateStr = None \<and> proto_key dateStr))"

text \<open>
  With an inherited value in place of the record or of the array, no entry is created in
  the object: the code goes on with a built-in function or with the prototype object,
  where \<^verbatim>\<open>push\<close> throws a TypeError or the status is written into the built-in
  object. That outcome is the fault \<open>InheritedKey\<close>; what the code does after it is not
  followed.
\<close>

datatype IngestFault = InheritedKey

text \<open>The body of \<^verbatim>\<open>rawRecords.forEach\<close> in \<^verbatim>\<open>transformAttendanceFromApi\<close>.\<close>

definition ingest_record :: "RawRecord \<Rightarrow> ClassAttendance \<Rightarrow> IngestFault + ClassAttendance" where
  "ingest_record rec att =
     (let dateStr = ingest_date rec
      in if dateStr = [] then Inr att
         else if sees_inherited att (r_studentId rec) dateStr then Inl InheritedKey
         else let studentRec = (case att (r_studentId rec) of Some r \<Rightarrow> r | None \<Rightarrow> []);
                  currentArr = (case map_of studentRec dateStr of Some a \<Rightarrow> a | None \<Rightarrow> []);
                  idx = internal_index (r_lessonIndex rec)
              in Inr (att(r_studentId rec \<mapsto>
                       js_put dateStr ((pad_undefined currentArr idx)[idx := r_status rec])
                         studentRec)))"

definition transformAttendanceFromApi :: "RawRecord list \<Rightarrow> IngestFault + ClassAttendance" where
  "transformAttendanceFromApi rawRecords =
     fold (\<lambda>rec acc. case acc of Inl e \<Rightarrow> Inl e | Inr att \<Rightarrow> ingest_record rec att)
          rawRecords (Inr Map.empty)"

text \<open>A record of the batch sent by \<^verbatim>\<open>api.saveAttendanceBatch\<close>.\<close>

record WireRecord =
  w_studentId :: string
  w_date :: string
  w_lessonIndex :: nat
  w_status :: AttendanceStatus
  w_subject :: string
  w_notes :: string

definition wire_record :: "PendingChange \<Rightarrow> WireRecord" where
  "wire_record c =
     \<lparr> w_studentId = studentId c, w_date = toBrDate (date c),
       w_lessonIndex = lessonIndex c + 1, w_status = status c,
       w_subject = or_empty (subject c), w_notes = or_empty (topic c) \<rparr>"


section \<open>Flushing the queue (\<^verbatim>\<open>App.tsx\<close>, \<^verbatim>\<open>handleSaveChanges\<close>)\<close>



section \<open>Lesson configuration lookups\<close>

text \<open>
  The resolution as the spec words it: the composite key first, the bare date second,
  the default third.
\<close>

definition spec_resolve :: "(string \<rightharpoonup> 'v) \<Rightarrow> string \<Rightarrow> string \<Rightarrow> 'v \<Rightarrow> 'v" where
  "spec_resolve m cid d dflt =
     (case m (cid @ ''_'' @ d) of
        Some v \<Rightarrow> v
      | None \<Rightarrow> (case m d of Some v \<Rightarrow> v | None \<Rightarrow> dflt))"

text \<open>
  \<^verbatim>\<open>AttendanceGrid\<close> (\<^verbatim>\<open>calculateStats\<close>, the header and the cells):
  \<^verbatim>\<open>dailyLessonConfig[configKey] || dailyLessonConfig[date] || [0]\<close> and the same for
  the subjects and topics with \<^verbatim>\<open>{}\<close>, where \<^verbatim>\<open>configKey = `${classId}_${date}`\<close>.
\<close>

definition grid_activeIndices :: "(string \<rightharpoonup> nat list) \<Rightarrow> string \<Rightarrow> string \<Rightarrow> nat list" where
  "grid_activeIndices cfg cid d =
     (case cfg (configKey cid d) of
        Some v \<Rightarrow> v
      | None \<Rightarrow> (case cfg d of Some v \<Rightarrow> v | None \<Rightarrow> [0]))"

definition grid_subjects :: "LessonSubjectMap \<Rightarrow> string \<Rightarrow> string \<Rightarrow> (nat \<rightharpoonup> string)" where
  "grid_subjects subj cid d =
     (case subj (configKey cid d) of
        Some m \<Rightarrow> m
      | None \<Rightarrow> (case subj d of Some m \<Rightarrow> m | None \<Rightarrow> Map.empty))"

definition grid_topics :: "LessonSubjectMap \<Rightarrow> string \<Rightarrow> string \<Rightarrow> (nat \<rightharpoonup> string)" where
  "grid_topics tpc cid d =
     (case tpc (configKey cid d) of
        Some m \<Rightarrow> m
      | None \<Rightarrow> (case tpc d of Some m \<Rightarrow> m | None \<Rightarrow> Map.empty))"

text \<open>
  \<^verbatim>\<open>ReportsDashboard\<close>, subject statistics: \<^verbatim>\<open>classId = student.classId || ''\<close>,
  \<^verbatim>\<open>lessonSubjects[configKey] || lessonSubjects[dateStr] || {}\<close>. It looks up neither
  the active indices nor the topics.
\<close>

definition reports_daySubjects :: "LessonSubjectMap \<Rightarrow> Student \<Rightarrow> string \<Rightarrow> (nat \<rightharpoonup> string)" where
  "reports_daySubjects subj student dateStr =
     (let classId = or_empty (s_classId student)
      in case subj (configKey classId dateStr) of
           Some m \<Rightarrow> m
         | None \<Rightarrow> (case subj dateStr of Some m \<Rightarrow> m | None \<Rightarrow> Map.empty))"

text \<open>
  The label \<^verbatim>\<open>'Nao informada'\<close> of a lesson without a subject; its second code unit
  is 0xE3, the letter a with a tilde.
\<close>

definition unspecified :: string where
  "unspecified = ''N'' @ [CHR 0xE3] @ ''o informada''"

text \<open>\<^verbatim>\<open>daySubjects[idx] || label\<close>: the label is also taken for an empty subject.\<close>

definition or_unspecified :: "string option \<Rightarrow> string" where
  "or_unspecified x = (case x of None \<Rightarrow> unspecified | Some v \<Rightarrow> if truthy v then v else unspecified)"

text \<open>
  \<^verbatim>\<open>LessonDiary\<close>, the body of the loop of \<^verbatim>\<open>rawMonthData\<close> for one day: the active
  indices are read at the composite key only, and the day is skipped (\<open>None\<close>) when
  they are absent or empty; subjects and topics fall back to the bare date.
\<close>

record DiaryLesson =
  dl_index :: nat
  dl_subject :: string
  dl_topic :: string

definition diary_activeIndices :: "(string \<rightharpoonup> nat list) \<Rightarrow> string \<Rightarrow> string \<Rightarrow> nat list option" where
  "diary_activeIndices cfg selClassId dateStr = cfg (configKey selClassId dateStr)"

definition diary_daySubjects :: "LessonSubjectMap \<Rightarrow> string \<Rightarrow> string \<Rightarrow> (nat \<rightharpoonup> string)" where
  "diary_daySubjects subj selClassId dateStr =
     (case subj (configKey selClassId dateStr) of
        Some m \<Rightarrow> m
      | None \<Rightarrow> (case subj dateStr of Some m \<Rightarrow> m | None \<Rightarrow> Map.empty))"

definition diary_dayTopics :: "LessonSubjectMap \<Rightarrow> string \<Rightarrow> string \<Rightarrow> (nat \<rightharpoonup> string)" where
  "diary_dayTopics tpc selClassId dateStr =
     (case tpc (configKey selClassId dateStr) of
        Some m \<Rightarrow> m
      | None \<Rightarrow> (case tpc dateStr of Some m \<Rightarrow> m | None \<Rightarrow> Map.empty))"

definition diary_day ::
  "(string \<rightharpoonup> nat list) \<Rightarrow> LessonSubjectMap \<Rightarrow> LessonSubjectMap \<Rightarrow> string \<Rightarrow> string
     \<Rightarrow> (string \<times> DiaryLesson list) option" where
  "diary_day cfg subj tpc selClassId dateStr =
     (case diary_activeIndices cfg selClassId dateStr of
        None \<Rightarrow> None
      | Some activeIndices \<Rightarrow>
          if length activeIndices = 0 then None
          else Some (dateStr,
                 map (\<lambda>idx. \<lparr> dl_index = idx,
                               dl_subject = or_unspecified (diary_daySubjects subj selClassId dateStr idx),
                               dl_topic = or_empty (diary_dayTopics tpc selClassId dateStr idx) \<rparr>)
                     activeIndices))"

text \<open>
  \<^verbatim>\<open>rawMonthData\<close>: nothing without a selected class; otherwise the records of the
  days that are not skipped. The argument \<open>dates\<close> is the list of the days of the month,
  newest first, which the loop builds from the year and the month.
\<close>

definition rawMonthData ::
  "(string \<rightharpoonup> nat list) \<Rightarrow> LessonSubjectMap \<Rightarrow> LessonSubjectMap \<Rightarrow> string \<Rightarrow> string list
     \<Rightarrow> (string \<times> DiaryLesson list) list" where
  "rawMonthData cfg subj tpc selClassId dates =
     (if selClassId = [] then []
      else List.map_filter (diary_day cfg subj tpc selClassId) dates)"

section \<open>Statistics (\<^verbatim>\<open>ReportsDashboard\<close>, \<^verbatim>\<open>StudentDetailModal\<close>)\<close>

text \<open>The counters \<^verbatim>\<open>present\<close>, \<^verbatim>\<open>excused\<close>, \<^verbatim>\<open>absent\<close> and \<^verbatim>\<open>total\<close>.\<close>

record Counts =
  present :: nat
  excused :: nat
  absent :: nat
  total_count :: nat

definition zero_counts :: Counts where
  "zero_counts = \<lparr> present = 0, excused = 0, absent = 0, total_count = 0 \<rparr>"

text \<open>The body of \<^verbatim>\<open>statuses.forEach\<close> in \<^verbatim>\<open>ReportsDashboard\<close>: four separate tests.\<close>

definition reports_count :: "AttendanceStatus \<Rightarrow> Counts \<Rightarrow> Counts" where
  "reports_count st c =
     (let c1 = (if st = PRESENT then c\<lparr> present := present c + 1 \<rparr> else c);
          c2 = (if st = EXCUSED then c1\<lparr> excused := excused c1 + 1 \<rparr> else c1);
          c3 = (if st = ABSENT then c2\<lparr> absent := absent c2 + 1 \<rparr> else c2)
      in if st \<noteq> UNDEFINED then c3\<lparr> total_count := total_count c3 + 1 \<rparr> else c3)"

text \<open>The same loop body in \<^verbatim>\<open>StudentDetailModal\<close>: an \<^verbatim>\<open>else if\<close> chain, then the total.\<close>

definition detail_count :: "AttendanceStatus \<Rightarrow> Counts \<Rightarrow> Counts" where
  "detail_count st c =
     (let c1 = (if st = PRESENT then c\<lparr> present := present c + 1 \<rparr>
                else if st = ABSENT then c\<lparr> absent := absent c + 1 \<rparr>
                else if st = EXCUSED then c\<lparr> excused := excused c + 1 \<rparr>
                else c)
      in if st \<noteq> UNDEFINED then c1\<lparr> total_count := total_count c1 + 1 \<rparr> else c1)"

text \<open>
  A JavaScript \<^verbatim>\<open>Date\<close> is its time value in milliseconds, \<open>None\<close> for an invalid
  date. A comparison with an invalid date is false.
\<close>

type_synonym JsDate = "int option"

definition date_lt :: "JsDate \<Rightarrow> JsDate \<Rightarrow> bool" where
  "date_lt a b = (case a of None \<Rightarrow> False | Some x \<Rightarrow> (case b of None \<Rightarrow> False | Some y \<Rightarrow> x < y))"

definition date_le :: "JsDate \<Rightarrow> JsDate \<Rightarrow> bool" where
  "date_le a b = (case a of None \<Rightarrow> False | Some x \<Rightarrow> (case b of None \<Rightarrow> False | Some y \<Rightarrow> x \<le> y))"

text \<open>
  The day number of a calendar date, as ECMAScript defines it (\<open>DayFromYear\<close>, the days
  of the months, day 0 being the first of January 1970).
\<close>

definition DayFromYear :: "int \<Rightarrow> int" where
  "DayFromYear y = 365 * (y - 1970) + (y - 1969) div 4 - (y - 1901) div 100 + (y - 1601) div 400"

definition month_days :: "int \<Rightarrow> int list" where
  "month_days y =
     [31, if (y mod 4 = 0 \<and> y mod 100 \<noteq> 0) \<or> y mod 400 = 0 then 29 else 28,
      31, 30, 31, 30, 31, 31, 30, 31, 30, 31]"

definition day_number :: "int \<Rightarrow> nat \<Rightarrow> int \<Rightarrow> int" where
  "day_number y m d = DayFromYear y + sum_list (take (m - 1) (month_days y)) + (d - 1)"

text \<open>
  The fields of a date \<^verbatim>\<open>YYYY-MM-DD\<close>; \<open>None\<close> when the text has another shape or
  names no day of the calendar.
\<close>

definition parse_ymd :: "string \<Rightarrow> (int \<times> nat \<times> int) option" where
  "parse_ymd s =
     (if matches_iso s
      then (let y = int (digits_value (take 4 s));
                m = digits_value (take 2 (drop 5 s));
                d = int (digits_value (drop 8 s))
            in if 1 \<le> m \<and> m \<le> 12 \<and> 1 \<le> d \<and> d \<le> month_days y ! (m - 1)
               then Some (y, m, d) else None)
      else None)"

text \<open>The time \<^verbatim>\<open>HH:mm:ss\<close> of a day, in seconds.\<close>

definition parse_hms :: "string \<Rightarrow> nat option" where
  "parse_hms s =
     (if length s = 8 \<and> is_digit (s ! 0) \<and> is_digit (s ! 1) \<and> s ! 2 = CHR '':''
         \<and> is_digit (s ! 3) \<and> is_digit (s ! 4) \<and> s ! 5 = CHR '':''
         \<and> is_digit (s ! 6) \<and> is_digit (s ! 7)
      then (let h = digits_value (take 2 s);
                mi = digits_value (take 2 (drop 3 s));
                sec = digits_value (drop 6 s)
            in if h \<le> 23 \<and> mi \<le> 59 \<and> sec \<le> 59 then Some (h * 3600 + mi * 60 + sec) else None)
      else None)"

text \<open>
  \<^verbatim>\<open>new Date(text)\<close> for the two shapes the code builds: a date alone
  (\<^verbatim>\<open>new Date(bim.start)\<close>), which ECMAScript reads as midnight UTC, and a date with a
  time and no offset (\<^verbatim>\<open>new Date(dateStr + 'T12:00:00')\<close>), which it reads as local
  time. The argument \<open>tz\<close> is the offset of the local time of the browser, in minutes
  east of UTC (-180 in Brasilia), taken as the same on every date. A text of another
  shape, or with a field out of range, is an invalid date here; engines differ on some of
  these.
\<close>

definition js_Date :: "int \<Rightarrow> string \<Rightarrow> JsDate" where
  "js_Date tz s =
     (if length s = 10
      then (case parse_ymd s of
              None \<Rightarrow> None
            | Some (y, m, d) \<Rightarrow> Some (day_number y m d * 86400000))
      else if length s = 19 \<and> s ! 10 = CHR ''T''
      then (case parse_ymd (take 10 s) of
              None \<Rightarrow> None
            | Some (y, m, d) \<Rightarrow>
                (case parse_hms (drop 11 s) of
                   None \<Rightarrow> None
                 | Some secs \<Rightarrow> Some (day_number y m d * 86400000 + int secs * 1000 - tz * 60000)))
      else None)"

record BimesterConfig =
  b_id :: nat
  b_name :: string
  b_start :: string
  b_end :: string

text \<open>
  \<^verbatim>\<open>ReportsDashboard\<close>: the range of the selected bimester, \<open>None\<close> for
  \<^verbatim>\<open>'ANNUAL'\<close> and for a bimester that is not found.
\<close>

definition reports_range :: "int \<Rightarrow> BimesterConfig list \<Rightarrow> string \<Rightarrow> (JsDate \<times> JsDate) option" where
  "reports_range tz bimesters selectedBimester =
     (if selectedBimester \<noteq> ''ANNUAL''
      then (case find (\<lambda>b. nat_str (b_id b) = selectedBimester) bimesters of
              None \<Rightarrow> None
            | Some bim \<Rightarrow> Some (js_Date tz (b_start bim), js_Date tz (b_end bim)))
      else None)"

text \<open>
  A date is skipped when a range is set and
  \<^verbatim>\<open>date < startDate || date > endDate\<close>, with \<^verbatim>\<open>date = new Date(dateStr + 'T12:00:00')\<close>.
\<close>

definition reports_in_range :: "int \<Rightarrow> (JsDate \<times> JsDate) option \<Rightarrow> string \<Rightarrow> bool" where
  "reports_in_range tz rng dateStr =
     (case rng of
        None \<Rightarrow> True
      | Some (startDate, endDate) \<Rightarrow>
          \<not> (date_lt (js_Date tz (dateStr @ ''T12:00:00'')) startDate
             \<or> date_lt endDate (js_Date tz (dateStr @ ''T12:00:00''))))"

text \<open>\<^verbatim>\<open>Object.entries(record).forEach\<close> of \<^verbatim>\<open>studentStats\<close>: the four counters.\<close>

definition reports_counts :: "int \<Rightarrow> (JsDate \<times> JsDate) option \<Rightarrow> AttendanceRecord \<Rightarrow> Counts" where
  "reports_counts tz rng record =
     fold (\<lambda>(dateStr, statuses) c.
             if reports_in_range tz rng dateStr then fold reports_count statuses c else c)
          record zero_counts"

text \<open>
  \<^verbatim>\<open>total > 0 ? ((present + excused) / total) * 100 : 0\<close>. The numbers of JavaScript
  are taken as exact rationals here.
\<close>

definition percentage :: "Counts \<Rightarrow> real" where
  "percentage c =
     (if total_count c > 0 then (real (present c + excused c) / real (total_count c)) * 100 else 0)"

datatype Level = CRITICAL | REGULAR | EXCELLENT

definition level :: "real \<Rightarrow> Level" where
  "level pct = (if pct \<ge> 90 then EXCELLENT else if pct \<ge> 75 then REGULAR else CRITICAL)"

text \<open>
  The \<^verbatim>\<open>stats\<close> of one student in \<^verbatim>\<open>studentStats\<close>. The tests on the class, the
  enrollment status and the level only decide whether the student's row is kept.
\<close>

definition reports_stats ::
  "int \<Rightarrow> BimesterConfig list \<Rightarrow> string \<Rightarrow> AttendanceRecord \<Rightarrow> Counts \<times> real \<times> Level" where
  "reports_stats tz bimesters selectedBimester record =
     (let c = reports_counts tz (reports_range tz bimesters selectedBimester) record
      in (c, percentage c, level (percentage c)))"

text \<open>
  \<^verbatim>\<open>StudentDetailModal.bimesterStats\<close> for one bimester: a date counts when
  \<^verbatim>\<open>date >= start && date <= end\<close>.
\<close>

definition detail_in_range :: "int \<Rightarrow> BimesterConfig \<Rightarrow> string \<Rightarrow> bool" where
  "detail_in_range tz bimester dateStr =
     (date_le (js_Date tz (b_start bimester)) (js_Date tz (dateStr @ ''T12:00:00''))
      \<and> date_le (js_Date tz (dateStr @ ''T12:00:00'')) (js_Date tz (b_end bimester)))"

definition detail_counts :: "int \<Rightarrow> BimesterConfig \<Rightarrow> AttendanceRecord \<Rightarrow> Counts" where
  "detail_counts tz bimester record =
     fold (\<lambda>(dateStr, statuses) c.
             if detail_in_range tz bimester dateStr then fold detail_count statuses c else c)
          record zero_counts"

definition bimesterStats ::
  "int \<Rightarrow> BimesterConfig list \<Rightarrow> AttendanceRecord \<Rightarrow> (BimesterConfig \<times> Counts \<times> real) list" where
  "bimesterStats tz bimesters attendanceRecord =
     map (\<lambda>bimester.
            let c = detail_counts tz bimester attendanceRecord
            in (bimester, c, percentage c))
         bimesters"

text \<open>The statuses of a record that fall on the dates selected by \<open>sel\<close>.\<close>

definition statuses_in :: "(string \<Rightarrow> bool) \<Rightarrow> AttendanceRecord \<Rightarrow> AttendanceStatus list" where
  "statuses_in sel record = concat (map snd (filter (\<lambda>e. sel (fst e)) record))"

text \<open>
  The period of a bimester as the spec words it: the dates from its start to its end,
  both included.
\<close>

definition ymd_le :: "int \<times> nat \<times> int \<Rightarrow> int \<times> nat \<times> int \<Rightarrow> bool" where
  "ymd_le a b =
     (case a of (y1, m1, d1) \<Rightarrow>
        (case b of (y2, m2, d2) \<Rightarrow>
           y1 < y2 \<or> (y1 = y2 \<and> (m1 < m2 \<or> (m1 = m2 \<and> d1 \<le> d2)))))"

definition spec_in_period :: "BimesterConfig \<Rightarrow> string \<Rightarrow> bool" where
  "spec_in_period bim dateStr =
     (case parse_ymd (b_start bim) of
        None \<Rightarrow> False
      | Some a \<Rightarrow>
          (case parse_ymd dateStr of
             None \<Rightarrow> False
           | Some x \<Rightarrow>
               (case parse_ymd (b_end bim) of
                  None \<Rightarrow> False
                | Some b \<Rightarrow> ymd_le a x \<and> ymd_le x b)))"

text \<open>
  The counts and the percentage as the spec words them: present, excused and absent
  statuses, every status other than UNDEFINED in the total, and
  \<open>(present + excused) / total * 100\<close>, which is 0 for an empty total.
\<close>

definition spec_counts :: "AttendanceStatus list \<Rightarrow> Counts" where
  "spec_counts sts =
     \<lparr> present = length (filter (\<lambda>x. x = PRESENT) sts),
       excused = length (filter (\<lambda>x. x = EXCUSED) sts),
       absent = length (filter (\<lambda>x. x = ABSENT) sts),
       total_count = length (filter (\<lambda>x. x \<noteq> UNDEFINED) sts) \<rparr>"

definition spec_percentage :: "Counts \<Rightarrow> real" where
  "spec_percentage c =
     (if total_count c = 0 then 0 else real (present c + excused c) / real (total_count c) * 100)"

section \<open>Deleting (\<^verbatim>\<open>App.tsx\<close>, \<^verbatim>\<open>handleDeleteStudent\<close>, \<^verbatim>\<open>executeDeleteClass\<close>)\<close>

text \<open>The state while \<^verbatim>\<open>api.deleteStudent\<close> is in flight: the local removal.\<close>

definition deleteStudent_local :: "string \<Rightarrow> AppState \<Rightarrow> AppState" where
  "deleteStudent_local sid s =
     s\<lparr> allStudents := filter (\<lambda>x. s_id x \<noteq> sid) (allStudents s),
        attendance := (attendance s)(sid := None) \<rparr>"

text \<open>
  \<^verbatim>\<open>handleDeleteStudent\<close>; \<open>remote_ok\<close> tells whether \<^verbatim>\<open>api.deleteStudent(id)\<close>
  resolves. The snapshots are taken before the removal and put back in \<^verbatim>\<open>catch\<close>.
\<close>

definition handleDeleteStudent :: "(string \<Rightarrow> bool) \<Rightarrow> string \<Rightarrow> AppState \<Rightarrow> AppState" where
  "handleDeleteStudent remote_ok sid s =
     (let previousStudents = allStudents s;
          previousAttendance = attendance s;
          s1 = deleteStudent_local sid s
      in if isOnline s
         then if remote_ok sid then s1
              else s1\<lparr> allStudents := previousStudents, attendance := previousAttendance \<rparr>
         else s1)"

text \<open>\<^verbatim>\<open>String(s.classId)\<close>: the text \<^verbatim>\<open>undefined\<close> for a student without a class.\<close>

definition js_String :: "string option \<Rightarrow> string" where
  "js_String x = (case x of None \<Rightarrow> ''undefined'' | Some v \<Rightarrow> v)"

text \<open>The state while \<^verbatim>\<open>api.deleteClass\<close> is in flight.\<close>

definition deleteClass_local :: "string \<Rightarrow> AppState \<Rightarrow> AppState" where
  "deleteClass_local cid s =
     (let studentsInClass = filter (\<lambda>x. js_String (s_classId x) = cid) (allStudents s);
          studentIdsToRemove = map s_id studentsInClass;
          s1 = (if selectedClassId s = cid
                then s\<lparr> selectedClassId := [], viewMode := DASHBOARD \<rparr> else s)
      in s1\<lparr> classes := filter (\<lambda>c. c_id c \<noteq> cid) (classes s1),
              allStudents := filter (\<lambda>x. js_String (s_classId x) \<noteq> cid) (allStudents s1),
              attendance := fold (\<lambda>sid newAtt. newAtt(sid := None)) studentIdsToRemove (attendance s1),
              classToDelete := None \<rparr>)"

text \<open>
  \<^verbatim>\<open>executeDeleteClass\<close>. It keeps no snapshot: in \<^verbatim>\<open>catch\<close> it calls
  \<^verbatim>\<open>loadData()\<close>, whose effect on the state depends on the remote source and on the
  local cache and is the argument \<open>loadData\<close>.
\<close>

definition executeDeleteClass :: "(string \<Rightarrow> bool) \<Rightarrow> (AppState \<Rightarrow> AppState) \<Rightarrow> AppState \<Rightarrow> AppState" where
  "executeDeleteClass remote_ok loadData s =
     (case classToDelete s of
        None \<Rightarrow> s
      | Some cls \<Rightarrow>
          let s2 = deleteClass_local (c_id cls) s
          in if isOnline s
             then if remote_ok (c_id cls) then s2 else loadData s2
             else s2)"

text \<open>
  \<^verbatim>\<open>loadData()\<close> when \<^verbatim>\<open>api.getData()\<close> throws and no cache is stored: an alert, the
  settings dialog is opened and \<^verbatim>\<open>loading\<close> is cleared; no store is written.
\<close>

definition loadData_no_source :: "AppState \<Rightarrow> AppState" where
  "loadData_no_source s = s\<lparr> isSettingsOpen := True, loading := False \<rparr>"

section \<open>Concrete states for the examples\<close>

definition demo_state :: AppState where
  "demo_state =
     \<lparr> isSaving = False, isOnline = True,
       classes = [\<lparr> c_id = ''c1'', c_name = ''1A'' \<rparr>, \<lparr> c_id = ''c2'', c_name = ''2B'' \<rparr>],
       allStudents =
         [\<lparr> s_id = ''s1'', s_name = ''Ana'', s_status = ACTIVE, s_classId = Some ''c1'' \<rparr>,
          \<lparr> s_id = ''s2'', s_name = ''Bia'', s_status = DROPOUT, s_classId = Some ''c1'' \<rparr>,
          \<lparr> s_id = ''s3'', s_name = ''Caio'', s_status = ACTIVE, s_classId = Some ''c2'' \<rparr>],
       attendance = [''s1'' \<mapsto> [(''2025-03-05'', [PRESENT, ABSENT])]],
       dailyLessonConfig = Map.empty, lessonSubjects = Map.empty, lessonTopics = Map.empty,
       pendingChanges = [], viewMode = CLASS, selectedClassId = ''c1'',
       classToDelete = Some \<lparr> c_id = ''c1'', c_name = ''1A'' \<rparr>, isSettingsOpen = False,
       loading = False \<rparr>"

definition demo_view :: "Student list" where
  "demo_view =
     [\<lparr> s_id = ''s1'', s_name = ''Ana'', s_status = ACTIVE, s_classId = Some ''c1'' \<rparr>,
      \<lparr> s_id = ''s2'', s_name = ''Bia'', s_status = DROPOUT, s_classId = Some ''c1'' \<rparr>]"

definition demo_change :: "AttendanceStatus \<Rightarrow> nat \<Rightarrow> PendingChange" where
  "demo_change v i =
     \<lparr> studentId = ''s1'', date = ''2025-03-05'', lessonIndex = i, status = v,
       subject = Some [], topic = Some [] \<rparr>"


definition demo_legacy_cfg :: "string \<rightharpoonup> nat list" where
  "demo_legacy_cfg = [''2025-03-05'' \<mapsto> [0, 1]]"

definition demo_both_cfg :: "string \<rightharpoonup> nat list" where
  "demo_both_cfg = [''2025-03-05'' \<mapsto> [0, 1], ''c1_2025-03-05'' \<mapsto> [0, 2, 3]]"

text \<open>
  A record of one student over the first bimester: a date before it, two dates inside
  with three PRESENT, one ABSENT and one EXCUSED status, and the last day of the
  bimester.
\<close>

definition demo_term_record :: AttendanceRecord where
  "demo_term_record =
     [(''2025-01-15'', [ABSENT]),
      (''2025-03-05'', [PRESENT, PRESENT, ABSENT]),
      (''2025-03-06'', [PRESENT, EXCUSED, UNDEFINED]),
      (''2025-04-30'', [ABSENT, ABSENT])]"

definition demo_bimester :: BimesterConfig where
  "demo_bimester = \<lparr> b_id = 1, b_name = ''B1'', b_start = ''2025-02-01'', b_end = ''2025-04-30'' \<rparr>"

definition demo_raw :: RawRecord where
  "demo_raw = \<lparr> r_studentId = ''s1'', r_date = Some ''05-03-2025'', r_lessonIndex = ''1'',
                 r_status = PRESENT \<rparr>"

definition demo_undated :: RawRecord where
  "demo_undated = \<lparr> r_studentId = ''s1'', r_date = Some [], r_lessonIndex = ''99'',
                     r_status = PRESENT \<rparr>"

definition demo_overflow :: RawRecord where
  "demo_overflow = \<lparr> r_studentId = ''s1'', r_date = Some ''05-03-2025'', r_lessonIndex = ''99'',
                      r_status = ABSENT \<rparr>"

definition demo_no_date :: RawRecord where
  "demo_no_date = \<lparr> r_studentId = ''s1'', r_date = None, r_lessonIndex = ''2'',
                     r_status = PRESENT \<rparr>"

section \<open>Lemmas on the transition engine\<close>

lemma pad_undefined_eq: "pad_undefined arr i = arr @ replicate (Suc i - length arr) UNDEFINED"
proof (induction arr i rule: pad_undefined.induct)
  case (1 arr i)
  show ?case
  proof (cases "length arr \<le> i")
    case True
    then have "Suc i - length arr = Suc (i - length arr)" by simp
    with True 1 show ?thesis
      by (subst pad_undefined.simps) (simp add: replicate_app_Cons_same)
  next
    case False
    then show ?thesis by (subst pad_undefined.simps) simp
  qed
qed

lemma or_UNDEFINED_Some [simp]: "or_UNDEFINED (Some v) = v"
  by (cases v) (simp_all add: or_UNDEFINED_def truthy_def)

lemma or_UNDEFINED_None [simp]: "or_UNDEFINED None = UNDEFINED"
  by (simp add: or_UNDEFINED_def)

lemma length_pad_undefined: "i < length (pad_undefined arr i)"
  by (simp add: pad_undefined_eq)

lemma nth_pad_undefined:
  "pad_undefined arr i ! j = (if j < length arr then arr ! j else UNDEFINED)" if "j < length (pad_undefined arr i)"
  using that by (auto simp: pad_undefined_eq nth_append)

lemma fold_max_ge: "(i::nat) \<le> fold max xs i"
  by (induction xs arbitrary: i) (auto intro: order_trans [OF max.cobounded2])

lemma length_currentDailyStatuses: "i < length (currentDailyStatuses c sid d i)"
  by (simp add: currentDailyStatuses_def Let_def length_pad_undefined)

lemma nth_pad_replicate:
  assumes "j < length (pad_undefined (replicate n UNDEFINED) i)"
  shows "pad_undefined (replicate n UNDEFINED) i ! j = UNDEFINED"
proof -
  have "pad_undefined (replicate n UNDEFINED) i = replicate (n + (Suc i - n)) UNDEFINED"
    by (simp only: pad_undefined_eq length_replicate replicate_add)
  with assms show ?thesis by simp
qed

lemma currentDailyStatuses_nth:
  assumes "j < length (currentDailyStatuses c sid d i)"
  shows "currentDailyStatuses c sid d i ! j = cell_status (attendance c) sid d j"
proof (cases "map_of (case attendance c sid of Some r \<Rightarrow> r | None \<Rightarrow> []) d")
  case None
  with assms show ?thesis
    by (simp add: currentDailyStatuses_def cell_status_def Let_def js_index_def
                  nth_pad_replicate del: replicate_Suc replicate.simps)
next
  case (Some arr)
  with assms show ?thesis
    by (simp add: currentDailyStatuses_def cell_status_def Let_def js_index_def
                  nth_pad_undefined)
qed

lemma current_at_index:
  "js_index (currentDailyStatuses c sid d i) i = Some (cell_status (attendance c) sid d i)"
  using length_currentDailyStatuses [of i c sid d]
  by (simp add: js_index_def currentDailyStatuses_nth)

lemma nextStatus_unforced:
  "nextStatus c sid d i None = cycle_status (cell_status (attendance c) sid d i)"
  by (simp add: nextStatus_def current_at_index)

lemma nextStatus_forced: "nextStatus c sid d i (Some f) = f"
  by (cases f) (simp_all add: nextStatus_def truthy_def)

lemma map_of_insert_index: "map_of (insert_index k v entries) = (map_of entries)(k \<mapsto> v)"
proof (induction entries)
  case Nil
  show ?case by simp
next
  case (Cons e es)
  obtain k' v' where e: "e = (k', v')" by (cases e)
  show ?case
  proof (cases "is_array_index k' \<and> digits_value k' < digits_value k")
    case True
    then have "k' \<noteq> k" by auto
    with True show ?thesis by (auto simp: e Cons.IH fun_eq_iff)
  next
    case False
    then show ?thesis by (auto simp: e fun_eq_iff)
  qed
qed

lemma map_of_js_put: "map_of (js_put k v entries) = (map_of entries)(k \<mapsto> v)"
proof -
  have "map_of (entries @ [(k, v)]) = (map_of entries)(k \<mapsto> v)" if "k \<notin> fst ` set entries"
  proof
    fix x
    from that have "map_of entries k = None" by (simp add: map_of_eq_None_iff)
    then show "map_of (entries @ [(k, v)]) x = ((map_of entries)(k \<mapsto> v)) x"
      by (cases "map_of entries x") (auto simp: map_add_def)
  qed
  then show ?thesis by (simp add: js_put_def update_conv' map_of_insert_index)
qed

lemma cell_status_set_daily_same:
  "cell_status (set_daily att sid d arr) sid d j = or_UNDEFINED (js_index arr j)"
  by (simp add: cell_status_def set_daily_def map_of_js_put)

lemma cell_status_set_daily_other:
  "sid' \<noteq> sid \<or> d' \<noteq> d \<Longrightarrow>
   cell_status (set_daily att sid d arr) sid' d' j = cell_status att sid' d' j"
  by (auto simp: cell_status_def set_daily_def map_of_js_put)

lemma cycle_status_neq: "cycle_status x \<noteq> x"
  by (cases x) (simp_all add: cycle_status_def)

lemma cycle_status_four: "cycle_status (cycle_status (cycle_status (cycle_status x))) = x"
  by (cases x) (simp_all add: cycle_status_def)

lemma toggle_attendance:
  "attendance (toggle st sid d i) =
     set_daily (attendance st) sid d
       ((currentDailyStatuses st sid d i)[i := cycle_status (cell_status (attendance st) sid d i)])"
  by (simp add: toggle_def handleToggleStatus_def Let_def current_at_index nextStatus_unforced
                cycle_status_neq [symmetric])

lemma toggle_cell:
  "cell_status (attendance (toggle st sid d i)) sid d i =
     cycle_status (cell_status (attendance st) sid d i)"
  by (simp add: toggle_attendance cell_status_set_daily_same js_index_def
                length_currentDailyStatuses)

text \<open>
  C2: for every student, date, lesson index and current status, a toggle without a forced
  status moves the cell one step along UNDEFINED, PRESENT, ABSENT, EXCUSED, UNDEFINED, and
  four toggles bring the cell back to the status it had.
\<close>

theorem toggle_cycle:
  "cell_status (attendance (toggle st sid d i)) sid d i
     = cycle_status (cell_status (attendance st) sid d i)
   \<and> cycle_status UNDEFINED = PRESENT \<and> cycle_status PRESENT = ABSENT
   \<and> cycle_status ABSENT = EXCUSED \<and> cycle_status EXCUSED = UNDEFINED
   \<and> cell_status (attendance (toggle (toggle (toggle (toggle st sid d i) sid d i) sid d i) sid d i))
        sid d i = cell_status (attendance st) sid d i"
  by (simp add: toggle_cell cycle_status_four) (simp add: cycle_status_def)

text \<open>
  C8: a toggle, forced or not, whose computed status equals the current status of the
  cell changes nothing: the attendance store and the pending queue stay as they are.
\<close>

theorem toggle_same_status_noop:
  "nextStatus c sid d i forcedStatus = cell_status (attendance c) sid d i \<Longrightarrow>
   handleToggleStatus c sid d i forcedStatus s = s"
  by (simp add: handleToggleStatus_def Let_def current_at_index)

theorem toggle_same_status_noop_witness:
  "nextStatus demo_state ''s1'' ''2025-03-05'' 0 (Some PRESENT)
     = cell_status (attendance demo_state) ''s1'' ''2025-03-05'' 0
   \<and> handleToggleStatus demo_state ''s1'' ''2025-03-05'' 0 (Some PRESENT) demo_state = demo_state"
proof -
  have h: "nextStatus demo_state ''s1'' ''2025-03-05'' 0 (Some PRESENT)
     = cell_status (attendance demo_state) ''s1'' ''2025-03-05'' 0"
    by (simp add: nextStatus_forced cell_status_def demo_state_def js_index_def)
  from h toggle_same_status_noop [OF h] show ?thesis by simp
qed

subsection \<open>Bulk\<close>

lemma length_le_currentDailyStatuses:
  "map_of (case attendance c sid of Some r \<Rightarrow> r | None \<Rightarrow> []) d = Some arr \<Longrightarrow>
   length arr \<le> length (currentDailyStatuses c sid d i)"
  by (simp add: currentDailyStatuses_def Let_def pad_undefined_eq)

lemma current_or_undefined:
  "or_UNDEFINED (js_index (currentDailyStatuses c sid d i) j) = cell_status (attendance c) sid d j"
proof (cases "j < length (currentDailyStatuses c sid d i)")
  case True
  then show ?thesis by (simp add: js_index_def currentDailyStatuses_nth)
next
  case False
  show ?thesis
  proof (cases "map_of (case attendance c sid of Some r \<Rightarrow> r | None \<Rightarrow> []) d")
    case None
    with False show ?thesis by (simp add: js_index_def cell_status_def)
  next
    case (Some arr)
    with False length_le_currentDailyStatuses [OF Some, of i] show ?thesis
      by (simp add: js_index_def cell_status_def)
  qed
qed

lemma bulk_currentStatus_eq:
  "bulk_currentStatus c student d i = cell_status (attendance c) (s_id student) d i"
  by (simp add: bulk_currentStatus_def cell_status_def Let_def js_index_def split: option.splits)

lemma js_index_update_other: "j \<noteq> i \<Longrightarrow> js_index (xs[i := v]) j = js_index xs j"
  by (simp add: js_index_def)

lemma forced_toggle_keeps_cells:
  assumes inv: "\<And>sid' d' j. cell_status (attendance c) sid' d' j \<noteq> UNDEFINED \<or> d' \<noteq> d \<or> j \<noteq> i \<Longrightarrow>
                  cell_status (attendance s) sid' d' j = cell_status (attendance c) sid' d' j"
    and undef: "cell_status (attendance c) sid d i = UNDEFINED"
    and P: "cell_status (attendance c) sid' d' j \<noteq> UNDEFINED \<or> d' \<noteq> d \<or> j \<noteq> i"
  shows "cell_status (attendance (handleToggleStatus c sid d i (Some f) s)) sid' d' j
           = cell_status (attendance c) sid' d' j"
proof (cases "js_index (currentDailyStatuses c sid d i) i = Some (nextStatus c sid d i (Some f))")
  case True
  then show ?thesis using inv [OF P] by (simp add: handleToggleStatus_def Let_def)
next
  case False
  then have att: "attendance (handleToggleStatus c sid d i (Some f) s)
      = set_daily (attendance s) sid d ((currentDailyStatuses c sid d i)[i := f])"
    by (simp add: handleToggleStatus_def Let_def nextStatus_forced)
  show ?thesis
  proof (cases "sid' \<noteq> sid \<or> d' \<noteq> d")
    case True
    then show ?thesis using inv [OF P] by (simp add: att cell_status_set_daily_other)
  next
    case False
    then have same: "sid' = sid" "d' = d" by simp_all
    with P undef have "j \<noteq> i" by auto
    then show ?thesis
      by (simp add: att same cell_status_set_daily_same js_index_update_other current_or_undefined)
  qed
qed

lemma bulk_keeps_cells:
  assumes "\<And>sid' d' j. cell_status (attendance c) sid' d' j \<noteq> UNDEFINED \<or> d' \<noteq> d \<or> j \<noteq> i \<Longrightarrow>
                  cell_status (attendance s) sid' d' j = cell_status (attendance c) sid' d' j"
    and "cell_status (attendance c) sid' d' j \<noteq> UNDEFINED \<or> d' \<noteq> d \<or> j \<noteq> i"
  shows "cell_status (attendance (handleBulkStatusUpdate c view d i v s)) sid' d' j
           = cell_status (attendance c) sid' d' j"
  using assms
proof (induction view arbitrary: s)
  case Nil
  then show ?case by (simp add: handleBulkStatusUpdate_def)
next
  case (Cons x xs)
  let ?s1 = "if s_status x \<noteq> ACTIVE then s
             else if bulk_currentStatus c x d i = UNDEFINED
                  then handleToggleStatus c (s_id x) d i (Some v) s else s"
  have step: "handleBulkStatusUpdate c (x # xs) d i v s = handleBulkStatusUpdate c xs d i v ?s1"
    by (simp add: handleBulkStatusUpdate_def)
  have inv1: "cell_status (attendance ?s1) a b k = cell_status (attendance c) a b k"
    if "cell_status (attendance c) a b k \<noteq> UNDEFINED \<or> b \<noteq> d \<or> k \<noteq> i" for a b k
  proof (cases "s_status x = ACTIVE \<and> bulk_currentStatus c x d i = UNDEFINED")
    case True
    then have "cell_status (attendance c) (s_id x) d i = UNDEFINED"
      by (simp add: bulk_currentStatus_eq)
    from forced_toggle_keeps_cells [of c d i s, OF Cons.prems(1) this that] True
    show ?thesis by simp
  next
    case False
    then show ?thesis using Cons.prems(1) [OF that] by auto
  qed
  show ?case unfolding step by (rule Cons.IH [OF inv1 Cons.prems(2)])
qed

lemma forced_toggle_other_student:
  assumes "sid' \<noteq> sid"
  shows "attendance (handleToggleStatus c sid d i f s) sid' = attendance s sid'"
    and "filter (\<lambda>p. studentId p = sid') (pendingChanges (handleToggleStatus c sid d i f s))
           = filter (\<lambda>p. studentId p = sid') (pendingChanges s)"
  using assms
  by (auto simp: handleToggleStatus_def Let_def set_daily_def enqueue_def intro!: filter_cong)

lemma bulk_other_student:
  assumes "sid' \<notin> s_id ` {x \<in> set view. s_status x = ACTIVE}"
  shows "attendance (handleBulkStatusUpdate c view d i v s) sid' = attendance s sid'
       \<and> filter (\<lambda>p. studentId p = sid') (pendingChanges (handleBulkStatusUpdate c view d i v s))
           = filter (\<lambda>p. studentId p = sid') (pendingChanges s)"
  using assms
proof (induction view arbitrary: s)
  case Nil
  then show ?case by (simp add: handleBulkStatusUpdate_def)
next
  case (Cons x xs)
  let ?s1 = "if s_status x \<noteq> ACTIVE then s
             else if bulk_currentStatus c x d i = UNDEFINED
                  then handleToggleStatus c (s_id x) d i (Some v) s else s"
  have step: "handleBulkStatusUpdate c (x # xs) d i v s = handleBulkStatusUpdate c xs d i v ?s1"
    by (simp add: handleBulkStatusUpdate_def)
  from Cons.prems have xs: "sid' \<notin> s_id ` {x \<in> set xs. s_status x = ACTIVE}" by auto
  from Cons.prems have ne: "s_status x = ACTIVE \<Longrightarrow> sid' \<noteq> s_id x" by auto
  have s1: "attendance ?s1 sid' = attendance s sid'
          \<and> filter (\<lambda>p. studentId p = sid') (pendingChanges ?s1)
              = filter (\<lambda>p. studentId p = sid') (pendingChanges s)"
    using ne forced_toggle_other_student [of sid' "s_id x" c d i "Some v" s] by auto
  show ?case unfolding step using Cons.IH [OF xs, of ?s1] s1 by simp
qed

text \<open>
  C3: the bulk update leaves every cell whose current status is not UNDEFINED as it is
  (and every cell outside the column it was asked for), and for a student id that no
  ACTIVE student of the view carries it changes neither the attendance entry nor the
  pending changes of that id.
\<close>

theorem bulk_only_undefined_active:
  "(cell_status (attendance st) sid d' j \<noteq> UNDEFINED \<longrightarrow>
      cell_status (attendance (bulkApply st view d i v)) sid d' j
        = cell_status (attendance st) sid d' j)
   \<and> (d' \<noteq> d \<or> j \<noteq> i \<longrightarrow>
      cell_status (attendance (bulkApply st view d i v)) sid d' j
        = cell_status (attendance st) sid d' j)
   \<and> (sid \<notin> s_id ` {x \<in> set view. s_status x = ACTIVE} \<longrightarrow>
      attendance (bulkApply st view d i v) sid = attendance st sid
      \<and> filter (\<lambda>p. studentId p = sid) (pendingChanges (bulkApply st view d i v))
          = filter (\<lambda>p. studentId p = sid) (pendingChanges st))"
proof (intro conjI impI)
  show "cell_status (attendance (bulkApply st view d i v)) sid d' j
        = cell_status (attendance st) sid d' j"
    if "cell_status (attendance st) sid d' j \<noteq> UNDEFINED"
    unfolding bulkApply_def using that by (intro bulk_keeps_cells) simp_all
  show "cell_status (attendance (bulkApply st view d i v)) sid d' j
        = cell_status (attendance st) sid d' j"
    if "d' \<noteq> d \<or> j \<noteq> i"
    unfolding bulkApply_def using that by (intro bulk_keeps_cells) auto
  assume "sid \<notin> s_id ` {x \<in> set view. s_status x = ACTIVE}"
  from bulk_other_student [OF this, of st d i v st]
  show "attendance (bulkApply st view d i v) sid = attendance st sid"
    and "filter (\<lambda>p. studentId p = sid) (pendingChanges (bulkApply st view d i v))
          = filter (\<lambda>p. studentId p = sid) (pendingChanges st)"
    unfolding bulkApply_def by simp_all
qed

theorem bulk_only_undefined_active_witness:
  "cell_status (attendance demo_state) ''s1'' ''2025-03-05'' 0 \<noteq> UNDEFINED
   \<and> cell_status (attendance (bulkApply demo_state demo_view ''2025-03-05'' 2 PRESENT))
         ''s1'' ''2025-03-05'' 0 = PRESENT
   \<and> cell_status (attendance (bulkApply demo_state demo_view ''2025-03-05'' 2 PRESENT))
         ''s1'' ''2025-03-05'' 2 = PRESENT
   \<and> ''s2'' \<notin> s_id ` {x \<in> set demo_view. s_status x = ACTIVE}
   \<and> attendance (bulkApply demo_state demo_view ''2025-03-05'' 2 PRESENT) ''s2'' = None
   \<and> filter (\<lambda>p. studentId p = ''s2'')
         (pendingChanges (bulkApply demo_state demo_view ''2025-03-05'' 2 PRESENT)) = []"
proof -
  have h1: "cell_status (attendance demo_state) ''s1'' ''2025-03-05'' 0 = PRESENT"
    by (simp add: cell_status_def demo_state_def js_index_def)
  have h2: "''s2'' \<notin> s_id ` {x \<in> set demo_view. s_status x = ACTIVE}"
    by (auto simp: demo_view_def)
  have h3: "attendance demo_state ''s2'' = None" "pendingChanges demo_state = []"
    by (simp_all add: demo_state_def)
  have c2: "cell_status (attendance demo_state) ''s1'' ''2025-03-05'' 2 = UNDEFINED"
    by (simp add: cell_status_def demo_state_def js_index_def)
  have t: "attendance (handleToggleStatus demo_state ''s1'' ''2025-03-05'' 2 (Some PRESENT) demo_state)
      = set_daily (attendance demo_state) ''s1'' ''2025-03-05''
          ((currentDailyStatuses demo_state ''s1'' ''2025-03-05'' 2)[2 := PRESENT])"
    by (simp add: handleToggleStatus_def Let_def current_at_index nextStatus_forced c2)
  have b: "bulkApply demo_state demo_view ''2025-03-05'' 2 PRESENT
      = handleToggleStatus demo_state ''s1'' ''2025-03-05'' 2 (Some PRESENT) demo_state"
    by (simp add: bulkApply_def handleBulkStatusUpdate_def demo_view_def bulk_currentStatus_eq c2)
  have changed: "cell_status (attendance (bulkApply demo_state demo_view ''2025-03-05'' 2 PRESENT))
         ''s1'' ''2025-03-05'' 2 = PRESENT"
    by (simp add: b t cell_status_set_daily_same js_index_def length_currentDailyStatuses)
  from bulk_only_undefined_active [of demo_state "''s1''" "''2025-03-05''" 0 demo_view "''2025-03-05''" 2 PRESENT]
       bulk_only_undefined_active [of demo_state "''s2''" "''2025-03-05''" 0 demo_view "''2025-03-05''" 2 PRESENT]
       h1 h2 h3 changed
  show ?thesis by simp
qed

subsection \<open>Pending-change queue\<close>

lemma enqueue_filter:
  "enqueue q ch = filter (\<lambda>c. cell_of c \<noteq> cell_of ch) q @ [ch]"
  by (simp add: enqueue_def cell_of_def)

lemma distinct_enqueue:
  "distinct (map cell_of q) \<Longrightarrow> distinct (map cell_of (enqueue q ch))"
  by (auto simp: enqueue_filter distinct_map_filter)

lemma distinct_foldl_enqueue:
  "distinct (map cell_of q) \<Longrightarrow> distinct (map cell_of (foldl enqueue q chs))"
  by (induction chs arbitrary: q) (simp_all add: distinct_enqueue)

lemma foldl_enqueue_gen:
  "foldl enqueue q chs =
     filter (\<lambda>c. cell_of c \<notin> set (map cell_of chs)) q @ spec_latest_per_cell chs"
proof (induction chs arbitrary: q)
  case Nil
  show ?case by simp
next
  case (Cons ch chs)
  have "foldl enqueue q (ch # chs) = foldl enqueue (enqueue q ch) chs" by simp
  also have "\<dots> = filter (\<lambda>c. cell_of c \<notin> set (map cell_of chs)) (enqueue q ch)
                   @ spec_latest_per_cell chs"
    by (rule Cons.IH)
  also have "\<dots> = filter (\<lambda>c. cell_of c \<notin> set (map cell_of (ch # chs))) q
                   @ spec_latest_per_cell (ch # chs)"
    unfolding enqueue_filter by (simp add: conj_commute)
  finally show ?case .
qed

lemma pending_handleToggleStatus:
  "pendingChanges (handleToggleStatus c sid d i f s) = pendingChanges s
   \<or> (\<exists>ch. pendingChanges (handleToggleStatus c sid d i f s) = enqueue (pendingChanges s) ch)"
  by (auto simp: handleToggleStatus_def Let_def)

lemma distinct_pending_handleToggleStatus:
  "distinct (map cell_of (pendingChanges s)) \<Longrightarrow>
   distinct (map cell_of (pendingChanges (handleToggleStatus c sid d i f s)))"
  using pending_handleToggleStatus [of c sid d i f s] distinct_enqueue [of "pendingChanges s"]
  by auto

lemma enqueue_same_cell:
  "filter (\<lambda>c. cell_of c = cell_of ch) (enqueue q ch) = [ch]"
  unfolding enqueue_filter by (simp add: filter_empty_conv)

lemma enqueue_other_cells:
  "filter (\<lambda>c. cell_of c \<noteq> cell_of ch) (enqueue q ch) = filter (\<lambda>c. cell_of c \<noteq> cell_of ch) q"
  unfolding enqueue_filter by simp

lemma handler_pending:
  "pendingChanges (handleToggleStatus c sid d i f s) =
     (if nextStatus c sid d i f = cell_status (attendance c) sid d i then pendingChanges s
      else enqueue (pendingChanges s)
             \<lparr> studentId = sid, date = d, lessonIndex = i, status = nextStatus c sid d i f,
               subject = Some (or_empty (toggle_subjectsMap c d i)),
               topic = Some (or_empty (toggle_topicsMap c d i)) \<rparr>)"
  by (auto simp: handleToggleStatus_def Let_def current_at_index)

lemma toggle_pending:
  "pendingChanges (toggle st sid d i) =
     enqueue (pendingChanges st)
       \<lparr> studentId = sid, date = d, lessonIndex = i,
         status = cycle_status (cell_status (attendance st) sid d i),
         subject = Some (or_empty (toggle_subjectsMap st d i)),
         topic = Some (or_empty (toggle_topicsMap st d i)) \<rparr>"
  by (simp add: toggle_def handler_pending nextStatus_unforced cycle_status_neq)

lemma run_clicks_pending:
  "pendingChanges (run_clicks st clicks) = foldl enqueue (pendingChanges st) (edits_of_clicks st clicks)"
proof (induction clicks arbitrary: st)
  case Nil
  show ?case by (simp add: run_clicks_def)
next
  case (Cons click clicks)
  obtain sid d i where click: "click = (sid, d, i)" by (cases click)
  have "run_clicks st (click # clicks) = run_clicks (toggle st sid d i) clicks"
    by (simp add: run_clicks_def click)
  then show ?case by (simp add: Cons.IH click toggle_pending)
qed

lemma toggle_other_cells:
  assumes "sid' \<noteq> sid \<or> d' \<noteq> d \<or> j \<noteq> i"
  shows "cell_status (attendance (toggle st sid d i)) sid' d' j = cell_status (attendance st) sid' d' j"
proof (cases "sid' \<noteq> sid \<or> d' \<noteq> d")
  case True
  then show ?thesis by (simp add: toggle_attendance cell_status_set_daily_other)
next
  case False
  with assms have "sid' = sid" "d' = d" "j \<noteq> i" by auto
  then show ?thesis
    by (simp add: toggle_attendance cell_status_set_daily_same js_index_update_other
                  current_or_undefined)
qed

lemma toggle_queue_matches:
  assumes "\<forall>p \<in> set (pendingChanges st).
             status p = cell_status (attendance st) (studentId p) (date p) (lessonIndex p)"
  shows "\<forall>p \<in> set (pendingChanges (toggle st sid d i)).
             status p = cell_status (attendance (toggle st sid d i)) (studentId p) (date p) (lessonIndex p)"
proof
  fix p assume "p \<in> set (pendingChanges (toggle st sid d i))"
  then consider (new) "p = \<lparr> studentId = sid, date = d, lessonIndex = i,
         status = cycle_status (cell_status (attendance st) sid d i),
         subject = Some (or_empty (toggle_subjectsMap st d i)),
         topic = Some (or_empty (toggle_topicsMap st d i)) \<rparr>"
    | (old) "p \<in> set (pendingChanges st)"
            "studentId p \<noteq> sid \<or> date p \<noteq> d \<or> lessonIndex p \<noteq> i"
    by (auto simp: toggle_pending enqueue_def)
  then show "status p = cell_status (attendance (toggle st sid d i)) (studentId p) (date p) (lessonIndex p)"
  proof cases
    case new
    then show ?thesis by (simp add: toggle_cell)
  next
    case old
    with assms show ?thesis by (simp add: toggle_other_cells)
  qed
qed

lemma run_clicks_queue_matches:
  assumes "\<forall>p \<in> set (pendingChanges st).
             status p = cell_status (attendance st) (studentId p) (date p) (lessonIndex p)"
  shows "\<forall>p \<in> set (pendingChanges (run_clicks st clicks)).
             status p = cell_status (attendance (run_clicks st clicks)) (studentId p) (date p) (lessonIndex p)"
  using assms
proof (induction clicks arbitrary: st)
  case Nil
  then show ?case by (simp add: run_clicks_def)
next
  case (Cons click clicks)
  obtain sid d i where click: "click = (sid, d, i)" by (cases click)
  have step: "run_clicks st (click # clicks) = run_clicks (toggle st sid d i) clicks"
    by (simp add: run_clicks_def click)
  show ?case unfolding step by (rule Cons.IH [OF toggle_queue_matches [OF Cons.prems]])
qed

text \<open>
  C4: a toggle that changes a cell replaces the queue by the enqueue of that cell with
  its new status, and a toggle that changes nothing leaves the queue as it is. A queue
  with at most one entry per cell keeps that property under every enqueue and under
  every toggle; after an enqueue the cell of the edit has exactly the new entry, last in
  the queue, and the entries of the other cells are those of before in their order.
  Starting from the empty queue, a sequence of clicks leaves exactly the latest edit of
  each cell, in the order of these latest edits, and the status of every queued entry is
  the status its cell has in the attendance store.
\<close>

theorem pending_queue_one_entry_per_cell:
  "distinct (map cell_of q) \<Longrightarrow>
     distinct (map cell_of (enqueue q ch))
   \<and> filter (\<lambda>c. cell_of c = cell_of ch) (enqueue q ch) = [ch]
   \<and> filter (\<lambda>c. cell_of c \<noteq> cell_of ch) (enqueue q ch) = filter (\<lambda>c. cell_of c \<noteq> cell_of ch) q
   \<and> distinct (map cell_of (foldl enqueue q chs))
   \<and> foldl enqueue [] chs = spec_latest_per_cell chs
   \<and> (pendingChanges s = q \<longrightarrow>
        distinct (map cell_of (pendingChanges (handleToggleStatus c sid d i f s))))
   \<and> (nextStatus c sid d i f = cell_status (attendance c) sid d i \<longrightarrow>
        pendingChanges (handleToggleStatus c sid d i f s) = pendingChanges s)
   \<and> (nextStatus c sid d i f \<noteq> cell_status (attendance c) sid d i \<longrightarrow>
        pendingChanges (handleToggleStatus c sid d i f s)
          = enqueue (pendingChanges s)
              \<lparr> studentId = sid, date = d, lessonIndex = i, status = nextStatus c sid d i f,
                subject = Some (or_empty (toggle_subjectsMap c d i)),
                topic = Some (or_empty (toggle_topicsMap c d i)) \<rparr>)
   \<and> (pendingChanges st = [] \<longrightarrow>
        pendingChanges (run_clicks st clicks) = spec_latest_per_cell (edits_of_clicks st clicks)
        \<and> distinct (map cell_of (pendingChanges (run_clicks st clicks)))
        \<and> (\<forall>p \<in> set (pendingChanges (run_clicks st clicks)).
              status p = cell_status (attendance (run_clicks st clicks))
                           (studentId p) (date p) (lessonIndex p)))"
proof (intro conjI impI)
  assume q: "distinct (map cell_of q)"
  show "distinct (map cell_of (enqueue q ch))" using q by (rule distinct_enqueue)
  show "filter (\<lambda>c. cell_of c = cell_of ch) (enqueue q ch) = [ch]" by (rule enqueue_same_cell)
  show "filter (\<lambda>c. cell_of c \<noteq> cell_of ch) (enqueue q ch) = filter (\<lambda>c. cell_of c \<noteq> cell_of ch) q"
    by (rule enqueue_other_cells)
  show "distinct (map cell_of (foldl enqueue q chs))" using q by (rule distinct_foldl_enqueue)
  show "foldl enqueue [] chs = spec_latest_per_cell chs" by (simp add: foldl_enqueue_gen)
  show "distinct (map cell_of (pendingChanges (handleToggleStatus c sid d i f s)))"
    if "pendingChanges s = q"
    using q that distinct_pending_handleToggleStatus [of s c sid d i f] by simp
  show "pendingChanges (handleToggleStatus c sid d i f s) = pendingChanges s"
    if "nextStatus c sid d i f = cell_status (attendance c) sid d i"
    using that by (simp add: handler_pending)
  show "pendingChanges (handleToggleStatus c sid d i f s)
          = enqueue (pendingChanges s)
              \<lparr> studentId = sid, date = d, lessonIndex = i, status = nextStatus c sid d i f,
                subject = Some (or_empty (toggle_subjectsMap c d i)),
                topic = Some (or_empty (toggle_topicsMap c d i)) \<rparr>"
    if "nextStatus c sid d i f \<noteq> cell_status (attendance c) sid d i"
    using that by (simp add: handler_pending)
  assume e: "pendingChanges st = []"
  show r: "pendingChanges (run_clicks st clicks) = spec_latest_per_cell (edits_of_clicks st clicks)"
    by (simp add: run_clicks_pending e foldl_enqueue_gen)
  have "distinct (map cell_of (foldl enqueue [] (edits_of_clicks st clicks)))"
    by (rule distinct_foldl_enqueue) simp
  then show "distinct (map cell_of (pendingChanges (run_clicks st clicks)))"
    by (simp add: run_clicks_pending e)
  show "\<forall>p \<in> set (pendingChanges (run_clicks st clicks)).
              status p = cell_status (attendance (run_clicks st clicks))
                           (studentId p) (date p) (lessonIndex p)"
    by (rule run_clicks_queue_matches) (simp add: e)
qed

theorem pending_queue_one_entry_per_cell_witness:
  "distinct (map cell_of [demo_change PRESENT 0, demo_change ABSENT 1])
   \<and> enqueue [demo_change PRESENT 0, demo_change ABSENT 1] (demo_change EXCUSED 0)
       = [demo_change ABSENT 1, demo_change EXCUSED 0]
   \<and> foldl enqueue [] [demo_change PRESENT 0, demo_change ABSENT 1, demo_change EXCUSED 0]
       = [demo_change ABSENT 1, demo_change EXCUSED 0]
   \<and> nextStatus demo_state ''s1'' ''2025-03-05'' 0 (Some PRESENT)
       = cell_status (attendance demo_state) ''s1'' ''2025-03-05'' 0
   \<and> pendingChanges (handleToggleStatus demo_state ''s1'' ''2025-03-05'' 0 (Some PRESENT)
         (demo_state\<lparr> pendingChanges := [demo_change PRESENT 0, demo_change ABSENT 1] \<rparr>))
       = [demo_change PRESENT 0, demo_change ABSENT 1]
   \<and> nextStatus demo_state ''s1'' ''2025-03-05'' 0 (Some EXCUSED)
       \<noteq> cell_status (attendance demo_state) ''s1'' ''2025-03-05'' 0
   \<and> pendingChanges (handleToggleStatus demo_state ''s1'' ''2025-03-05'' 0 (Some EXCUSED)
         (demo_state\<lparr> pendingChanges := [demo_change PRESENT 0, demo_change ABSENT 1] \<rparr>))
       = [demo_change ABSENT 1, demo_change EXCUSED 0]
   \<and> pendingChanges demo_state = []
   \<and> map (\<lambda>p. (lessonIndex p, status p))
         (pendingChanges (run_clicks demo_state
            [(''s1'', ''2025-03-05'', 0), (''s1'', ''2025-03-05'', 1), (''s1'', ''2025-03-05'', 0)]))
       = [(1, EXCUSED), (0, EXCUSED)]"
proof -
  let ?q = "[demo_change PRESENT 0, demo_change ABSENT 1]"
  let ?s = "demo_state\<lparr> pendingChanges := ?q \<rparr>"
  let ?clicks = "[(''s1'', ''2025-03-05'', 0), (''s1'', ''2025-03-05'', 1), (''s1'', ''2025-03-05'', 0)]"
  have h: "distinct (map cell_of ?q)"
    by (simp add: cell_of_def demo_change_def)
  have e: "enqueue ?q (demo_change EXCUSED 0) = [demo_change ABSENT 1, demo_change EXCUSED 0]"
    by (simp add: enqueue_def demo_change_def)
  have l: "spec_latest_per_cell [demo_change PRESENT 0, demo_change ABSENT 1, demo_change EXCUSED 0]
             = [demo_change ABSENT 1, demo_change EXCUSED 0]"
    by (simp add: cell_of_def demo_change_def)
  have cur: "cell_status (attendance demo_state) ''s1'' ''2025-03-05'' 0 = PRESENT"
    by (simp add: cell_status_def demo_state_def js_index_def)
  have maps: "toggle_subjectsMap demo_state ''2025-03-05'' 0 = None"
             "toggle_topicsMap demo_state ''2025-03-05'' 0 = None"
    by (simp_all add: toggle_subjectsMap_def toggle_topicsMap_def demo_state_def)
  have emp: "pendingChanges demo_state = []" by (simp add: demo_state_def)
  note same = pending_queue_one_entry_per_cell
                [OF h, of "demo_change EXCUSED 0"
                   "[demo_change PRESENT 0, demo_change ABSENT 1, demo_change EXCUSED 0]"
                   ?s demo_state "''s1''" "''2025-03-05''" 0 "Some PRESENT" demo_state ?clicks]
  note diff = pending_queue_one_entry_per_cell
                [OF h, of "demo_change EXCUSED 0"
                   "[demo_change PRESENT 0, demo_change ABSENT 1, demo_change EXCUSED 0]"
                   ?s demo_state "''s1''" "''2025-03-05''" 0 "Some EXCUSED" demo_state ?clicks]
  have n1: "nextStatus demo_state ''s1'' ''2025-03-05'' 0 (Some PRESENT)
              = cell_status (attendance demo_state) ''s1'' ''2025-03-05'' 0"
    by (simp add: nextStatus_forced cur)
  have n2: "nextStatus demo_state ''s1'' ''2025-03-05'' 0 (Some EXCUSED)
              \<noteq> cell_status (attendance demo_state) ''s1'' ''2025-03-05'' 0"
    by (simp add: nextStatus_forced cur)
  from same n1 have a: "pendingChanges (handleToggleStatus demo_state ''s1'' ''2025-03-05'' 0
                          (Some PRESENT) ?s) = pendingChanges ?s"
    by blast
  from diff n2 have "pendingChanges (handleToggleStatus demo_state ''s1'' ''2025-03-05'' 0
                          (Some EXCUSED) ?s)
      = enqueue (pendingChanges ?s)
              \<lparr> studentId = ''s1'', date = ''2025-03-05'', lessonIndex = 0,
                status = nextStatus demo_state ''s1'' ''2025-03-05'' 0 (Some EXCUSED),
                subject = Some (or_empty (toggle_subjectsMap demo_state ''2025-03-05'' 0)),
                topic = Some (or_empty (toggle_topicsMap demo_state ''2025-03-05'' 0)) \<rparr>"
    by blast
  then have b: "pendingChanges (handleToggleStatus demo_state ''s1'' ''2025-03-05'' 0
                          (Some EXCUSED) ?s) = [demo_change ABSENT 1, demo_change EXCUSED 0]"
    by (simp add: nextStatus_forced maps or_empty_def enqueue_def demo_change_def)
  from same have f: "foldl enqueue [] [demo_change PRESENT 0, demo_change ABSENT 1, demo_change EXCUSED 0]
       = [demo_change ABSENT 1, demo_change EXCUSED 0]"
    by (simp only: l)
  from same emp have r: "pendingChanges (run_clicks demo_state ?clicks)
                           = spec_latest_per_cell (edits_of_clicks demo_state ?clicks)"
    by blast
  have c1: "cell_status (attendance demo_state) ''s1'' ''2025-03-05'' 1 = ABSENT"
    by (simp add: cell_status_def demo_state_def js_index_def)
  have ed: "map (\<lambda>p. (cell_of p, status p)) (edits_of_clicks demo_state ?clicks)
              = [((''s1'', ''2025-03-05'', 0), ABSENT), ((''s1'', ''2025-03-05'', 1), EXCUSED),
                 ((''s1'', ''2025-03-05'', 0), EXCUSED)]"
    by (simp add: cell_of_def cur c1 [unfolded One_nat_def] toggle_cell toggle_other_cells
                  cycle_status_def)
  have sl: "map (\<lambda>p. (lessonIndex p, status p)) (spec_latest_per_cell (edits_of_clicks demo_state ?clicks))
              = [(1, EXCUSED), (0, EXCUSED)]"
    using ed by (simp add: cell_of_def)
  from h e f n1 n2 a b emp r sl show ?thesis by simp
qed

subsection \<open>Flush\<close>



subsection \<open>Configuration lookups\<close>

text \<open>
  C1, as the claim states it, fails for the diary: where a date has no entry of active
  indices at all, the grid and the toggle resolve to the default \<open>[0]\<close>, while the diary
  applies no default and skips the day.
\<close>

theorem diary_no_default_counterexample:
  "spec_resolve Map.empty ''c1'' ''2025-03-05'' [0::nat] = [0]
   \<and> grid_activeIndices Map.empty ''c1'' ''2025-03-05'' = [0]
   \<and> dailyLessonConfig demo_state = Map.empty
   \<and> toggle_activeLessons demo_state ''2025-03-05'' = [0]
   \<and> diary_day Map.empty Map.empty Map.empty ''c1'' ''2025-03-05'' = None
   \<and> rawMonthData Map.empty Map.empty Map.empty ''c1'' [''2025-03-05''] = []"
  by (simp add: grid_activeIndices_def spec_resolve_def diary_activeIndices_def diary_day_def
                toggle_activeLessons_def demo_state_def configKey_def rawMonthData_def
                List.map_filter_simps)

text \<open>
  C1 amended: the toggle and the grid resolve active indices, subjects and topics by
  composite key, then bare date, then the default (\<open>[0]\<close>, the empty map); the statistics
  resolve the subjects so and the diary resolves subjects and topics so. The diary
  applies no default to the active indices: a day with no entry of active indices, or
  with an empty one at the composite key, is skipped, and a day with a non-empty entry at
  the composite key lists exactly its indices. Wherever a value is present at the
  composite key, it is the one returned.
\<close>

theorem config_resolution_order:
  "toggle_activeLessons c d = spec_resolve (dailyLessonConfig c) (selectedClassId c) d [0]
   \<and> toggle_subjectsMap c d = spec_resolve (lessonSubjects c) (selectedClassId c) d Map.empty
   \<and> toggle_topicsMap c d = spec_resolve (lessonTopics c) (selectedClassId c) d Map.empty
   \<and> grid_activeIndices cfg cid d = spec_resolve cfg cid d [0]
   \<and> grid_subjects subj cid d = spec_resolve subj cid d Map.empty
   \<and> grid_topics tpc cid d = spec_resolve tpc cid d Map.empty
   \<and> reports_daySubjects subj student d = spec_resolve subj (or_empty (s_classId student)) d Map.empty
   \<and> diary_daySubjects subj cid d = spec_resolve subj cid d Map.empty
   \<and> diary_dayTopics tpc cid d = spec_resolve tpc cid d Map.empty
   \<and> (cfg (cid @ ''_'' @ d) = None \<and> cfg d = None \<longrightarrow> diary_day cfg subj tpc cid d = None)
   \<and> (cfg (cid @ ''_'' @ d) = Some [] \<longrightarrow> diary_day cfg subj tpc cid d = None)
   \<and> (cfg (cid @ ''_'' @ d) = Some v \<and> v \<noteq> [] \<longrightarrow>
        diary_day cfg subj tpc cid d
          = Some (d, map (\<lambda>idx. \<lparr> dl_index = idx,
                                   dl_subject = or_unspecified (spec_resolve subj cid d Map.empty idx),
                                   dl_topic = or_empty (spec_resolve tpc cid d Map.empty idx) \<rparr>) v))
   \<and> (cfg (cid @ ''_'' @ d) = Some v \<longrightarrow>
        spec_resolve cfg cid d [0] = v \<and> grid_activeIndices cfg cid d = v
        \<and> diary_activeIndices cfg cid d = Some v)
   \<and> (subj (cid @ ''_'' @ d) = Some m \<longrightarrow>
        grid_subjects subj cid d = m \<and> diary_daySubjects subj cid d = m)"
  by (simp add: toggle_activeLessons_def toggle_subjectsMap_def toggle_topicsMap_def
                grid_activeIndices_def grid_subjects_def grid_topics_def reports_daySubjects_def
                diary_daySubjects_def diary_dayTopics_def diary_activeIndices_def diary_day_def
                spec_resolve_def configKey_def Let_def split: option.splits)

theorem config_resolution_order_witness:
  "demo_both_cfg (''c1'' @ ''_'' @ ''2025-03-05'') = Some [0, 2, 3]
   \<and> demo_both_cfg ''2025-03-05'' = Some [0, 1]
   \<and> spec_resolve demo_both_cfg ''c1'' ''2025-03-05'' [0] = [0, 2, 3]
   \<and> grid_activeIndices demo_both_cfg ''c1'' ''2025-03-05'' = [0, 2, 3]
   \<and> diary_activeIndices demo_both_cfg ''c1'' ''2025-03-05'' = Some [0, 2, 3]
   \<and> map dl_index (snd (the (diary_day demo_both_cfg [''c1_2025-03-05'' \<mapsto> [0 \<mapsto> ''Math'']]
                                 Map.empty ''c1'' ''2025-03-05''))) = [0, 2, 3]
   \<and> grid_subjects [''c1_2025-03-05'' \<mapsto> [0 \<mapsto> ''Math'']] ''c1'' ''2025-03-05'' 0 = Some ''Math''
   \<and> (Map.empty :: string \<rightharpoonup> nat list) (''c1'' @ ''_'' @ ''2025-03-05'') = None
   \<and> diary_day Map.empty Map.empty Map.empty ''c1'' ''2025-03-05'' = None
   \<and> [''c1_2025-03-05'' \<mapsto> []] (''c1'' @ ''_'' @ ''2025-03-05'') = Some ([] :: nat list)
   \<and> diary_day [''c1_2025-03-05'' \<mapsto> [], ''2025-03-05'' \<mapsto> [0, 1]] Map.empty Map.empty
         ''c1'' ''2025-03-05'' = None"
proof -
  let ?math = "[''c1_2025-03-05'' \<mapsto> [0::nat \<mapsto> ''Math'']]"
  let ?student = "\<lparr> s_id = ''s1'', s_name = ''Ana'', s_status = ACTIVE, s_classId = Some ''c1'' \<rparr>"
  let ?emptied = "[''c1_2025-03-05'' \<mapsto> ([] :: nat list), ''2025-03-05'' \<mapsto> [0, 1]]"
  have h: "demo_both_cfg (''c1'' @ ''_'' @ ''2025-03-05'') = Some [0, 2, 3]"
          "demo_both_cfg ''2025-03-05'' = Some [0, 1]"
    by (simp_all add: demo_both_cfg_def)
  have k: "?math (''c1'' @ ''_'' @ ''2025-03-05'') = Some [0::nat \<mapsto> ''Math'']"
    by simp
  have e: "?emptied (''c1'' @ ''_'' @ ''2025-03-05'') = Some []" by simp
  note both = config_resolution_order
         [where cfg = demo_both_cfg and cid = "''c1''" and d = "''2025-03-05''"
            and subj = ?math and tpc = Map.empty
            and v = "[0, 2, 3]" and m = "[0 \<mapsto> ''Math'']" and c = demo_state
            and student = ?student]
  note none = config_resolution_order
         [where cfg = Map.empty and cid = "''c1''" and d = "''2025-03-05''"
            and subj = Map.empty and tpc = Map.empty
            and v = "[0]" and m = Map.empty and c = demo_state and student = ?student]
  note emptied = config_resolution_order
         [where cfg = ?emptied and cid = "''c1''" and d = "''2025-03-05''"
            and subj = Map.empty and tpc = Map.empty
            and v = "[0]" and m = Map.empty and c = demo_state and student = ?student]
  from both h have b1: "spec_resolve demo_both_cfg ''c1'' ''2025-03-05'' [0] = [0, 2, 3]"
    and b2: "grid_activeIndices demo_both_cfg ''c1'' ''2025-03-05'' = [0, 2, 3]"
    and b3: "diary_activeIndices demo_both_cfg ''c1'' ''2025-03-05'' = Some [0, 2, 3]"
    by blast+
  from both h have "diary_day demo_both_cfg ?math Map.empty ''c1'' ''2025-03-05''
          = Some (''2025-03-05'',
                  map (\<lambda>idx. \<lparr> dl_index = idx,
                         dl_subject = or_unspecified (spec_resolve ?math ''c1'' ''2025-03-05'' Map.empty idx),
                         dl_topic = or_empty (spec_resolve Map.empty ''c1'' ''2025-03-05'' Map.empty idx) \<rparr>)
                      [0, 2, 3])"
    by blast
  then have b4: "map dl_index (snd (the (diary_day demo_both_cfg ?math Map.empty ''c1'' ''2025-03-05'')))
                   = [0, 2, 3]"
    by simp
  from both k have "grid_subjects ?math ''c1'' ''2025-03-05'' = [0 \<mapsto> ''Math'']" by blast
  then have b5: "grid_subjects ?math ''c1'' ''2025-03-05'' 0 = Some ''Math''" by simp
  from none have n1: "diary_day Map.empty Map.empty Map.empty ''c1'' ''2025-03-05'' = None" by simp
  from emptied e have e1: "diary_day ?emptied Map.empty Map.empty ''c1'' ''2025-03-05'' = None"
    by blast
  from h b1 b2 b3 b4 b5 n1 e e1 show ?thesis by simp
qed

subsection \<open>Statistics\<close>

lemma fold_reports_count:
  "fold reports_count sts c =
     \<lparr> present = present c + present (spec_counts sts),
       excused = excused c + excused (spec_counts sts),
       absent = absent c + absent (spec_counts sts),
       total_count = total_count c + total_count (spec_counts sts) \<rparr>"
proof (induction sts arbitrary: c)
  case Nil
  show ?case by (simp add: spec_counts_def)
next
  case (Cons x xs)
  have rc: "reports_count x c =
      \<lparr> present = present c + present (spec_counts [x]),
        excused = excused c + excused (spec_counts [x]),
        absent = absent c + absent (spec_counts [x]),
        total_count = total_count c + total_count (spec_counts [x]) \<rparr>"
    by (cases x) (simp_all add: reports_count_def spec_counts_def)
  show ?case by (simp add: Cons.IH rc spec_counts_def)
qed

lemma detail_count_eq: "detail_count = reports_count"
proof (intro ext)
  fix x c
  show "detail_count x c = reports_count x c"
    by (cases x) (simp_all add: detail_count_def reports_count_def)
qed

lemma spec_counts_append:
  "spec_counts (xs @ ys) =
     \<lparr> present = present (spec_counts xs) + present (spec_counts ys),
       excused = excused (spec_counts xs) + excused (spec_counts ys),
       absent = absent (spec_counts xs) + absent (spec_counts ys),
       total_count = total_count (spec_counts xs) + total_count (spec_counts ys) \<rparr>"
  by (simp add: spec_counts_def)

lemma fold_dates_counts:
  "fold (\<lambda>(dateStr, statuses) c. if sel dateStr then fold reports_count statuses c else c) rcd c
     = \<lparr> present = present c + present (spec_counts (statuses_in sel rcd)),
         excused = excused c + excused (spec_counts (statuses_in sel rcd)),
         absent = absent c + absent (spec_counts (statuses_in sel rcd)),
         total_count = total_count c + total_count (spec_counts (statuses_in sel rcd)) \<rparr>"
proof (induction rcd arbitrary: c)
  case Nil
  show ?case by (simp add: statuses_in_def spec_counts_def)
next
  case (Cons e es)
  obtain dt sts where e: "e = (dt, sts)" by (cases e)
  have cons: "statuses_in sel ((dt, sts) # es)
                = (if sel dt then sts @ statuses_in sel es else statuses_in sel es)"
    by (simp add: statuses_in_def)
  show ?case
    by (simp add: e Cons.IH cons fold_reports_count spec_counts_append)
qed

lemma reports_counts_spec:
  "reports_counts tz rng record = spec_counts (statuses_in (reports_in_range tz rng) record)"
  by (simp add: reports_counts_def fold_dates_counts zero_counts_def)

lemma detail_counts_spec:
  "detail_counts tz b record = spec_counts (statuses_in (detail_in_range tz b) record)"
  unfolding detail_counts_def detail_count_eq
  by (simp add: fold_dates_counts zero_counts_def)

lemma percentage_spec: "percentage c = spec_percentage c"
  by (simp add: percentage_def spec_percentage_def)

lemma spec_counts_total:
  "total_count (spec_counts sts) = present (spec_counts sts) + excused (spec_counts sts) + absent (spec_counts sts)"
proof (induction sts)
  case Nil
  show ?case by (simp add: spec_counts_def)
next
  case (Cons x xs)
  then show ?case by (cases x) (simp_all add: spec_counts_def)
qed

lemma bimesterStats_spec:
  "bimesterStats tz bims rcd =
     map (\<lambda>b. (b, spec_counts (statuses_in (detail_in_range tz b) rcd),
                 spec_percentage (spec_counts (statuses_in (detail_in_range tz b) rcd)))) bims"
  by (simp add: bimesterStats_def detail_counts_spec percentage_spec Let_def)

lemma reports_stats_spec:
  "reports_stats tz bims sel rcd =
     (spec_counts (statuses_in (reports_in_range tz (reports_range tz bims sel)) rcd),
      spec_percentage (spec_counts (statuses_in (reports_in_range tz (reports_range tz bims sel)) rcd)),
      level (spec_percentage
               (spec_counts (statuses_in (reports_in_range tz (reports_range tz bims sel)) rcd))))"
  by (simp add: reports_stats_def reports_counts_spec percentage_spec Let_def)

lemmas date_defs = js_Date_def parse_ymd_def parse_hms_def matches_iso_def is_digit_def
  digits_value_def digit_val_def day_number_def DayFromYear_def month_days_def Let_def

lemma brasilia_dates:
  "js_Date (- 180) ''2025-02-01'' = Some 1738368000000"
  "js_Date (- 180) ''2025-04-30'' = Some 1745971200000"
  "js_Date (- 180) ''2025-01-15T12:00:00'' = Some 1736953200000"
  "js_Date (- 180) ''2025-03-05T12:00:00'' = Some 1741186800000"
  "js_Date (- 180) ''2025-03-06T12:00:00'' = Some 1741273200000"
  "js_Date (- 180) ''2025-04-30T12:00:00'' = Some 1746025200000"
  by (simp_all add: date_defs)

lemma nat_str_one: "nat_str 1 = ''1''"
  by (subst nat_str.simps) (simp add: digit_char_def)

text \<open>
  C6: the counters of the code miss the last day of the period. In a browser at UTC-3,
  for the bimester from 2025-02-01 to 2025-04-30 and a student with three PRESENT, one
  ABSENT and one EXCUSED status inside the period and two ABSENT statuses on 2025-04-30,
  the reports and the bimester statistics count 3, 1 and 1 of 5, give 80 and (in the
  reports) the level REGULAR: the end of the period is midnight UTC of its last day and
  the date of a record is noon local time. Counting every status of the period other than
  UNDEFINED gives 3 present, 1 excused and 3 absent of 7, that is 400/7, and CRITICAL.
\<close>

theorem end_date_not_counted:
  "reports_stats (- 180) [demo_bimester] ''1'' demo_term_record
     = (\<lparr> present = 3, excused = 1, absent = 1, total_count = 5 \<rparr>, 80, REGULAR)
   \<and> bimesterStats (- 180) [demo_bimester] demo_term_record
     = [(demo_bimester, \<lparr> present = 3, excused = 1, absent = 1, total_count = 5 \<rparr>, 80)]
   \<and> statuses_in (spec_in_period demo_bimester) demo_term_record
     = [PRESENT, PRESENT, ABSENT, PRESENT, EXCUSED, UNDEFINED, ABSENT, ABSENT]
   \<and> spec_counts (statuses_in (spec_in_period demo_bimester) demo_term_record)
     = \<lparr> present = 3, excused = 1, absent = 3, total_count = 7 \<rparr>
   \<and> spec_percentage \<lparr> present = 3, excused = 1, absent = 3, total_count = 7 \<rparr> = 400 / 7
   \<and> level (400 / 7) = CRITICAL"
proof -
  have rng: "reports_range (- 180) [demo_bimester] ''1''
               = Some (Some 1738368000000, Some 1745971200000)"
    by (simp add: reports_range_def demo_bimester_def nat_str_one [unfolded One_nat_def]
                  brasilia_dates)
  have code_r: "statuses_in (reports_in_range (- 180) (Some (Some 1738368000000, Some 1745971200000)))
                  demo_term_record = [PRESENT, PRESENT, ABSENT, PRESENT, EXCUSED, UNDEFINED]"
    by (simp add: statuses_in_def demo_term_record_def reports_in_range_def date_lt_def
                  brasilia_dates)
  have code_d: "statuses_in (detail_in_range (- 180) demo_bimester) demo_term_record
                  = [PRESENT, PRESENT, ABSENT, PRESENT, EXCUSED, UNDEFINED]"
    by (simp add: statuses_in_def demo_term_record_def detail_in_range_def date_le_def
                  demo_bimester_def brasilia_dates)
  have c5: "spec_counts [PRESENT, PRESENT, ABSENT, PRESENT, EXCUSED, UNDEFINED]
              = \<lparr> present = 3, excused = 1, absent = 1, total_count = 5 \<rparr>"
    by (simp add: spec_counts_def)
  have p5: "spec_percentage \<lparr> present = 3, excused = 1, absent = 1, total_count = 5 \<rparr> = 80"
    by (simp add: spec_percentage_def)
  have l5: "level 80 = REGULAR" by (simp add: level_def)
  have a: "reports_stats (- 180) [demo_bimester] ''1'' demo_term_record
     = (\<lparr> present = 3, excused = 1, absent = 1, total_count = 5 \<rparr>, 80, REGULAR)"
    by (simp only: reports_stats_spec rng code_r c5 p5 l5)
  have b: "bimesterStats (- 180) [demo_bimester] demo_term_record
     = [(demo_bimester, \<lparr> present = 3, excused = 1, absent = 1, total_count = 5 \<rparr>, 80)]"
    by (simp only: bimesterStats_spec code_d c5 p5 list.map)
  have period: "\<not> spec_in_period demo_bimester ''2025-01-15''"
    "spec_in_period demo_bimester ''2025-03-05''" "spec_in_period demo_bimester ''2025-03-06''"
    "spec_in_period demo_bimester ''2025-04-30''"
    by (simp_all add: spec_in_period_def ymd_le_def demo_bimester_def date_defs)
  have s: "statuses_in (spec_in_period demo_bimester) demo_term_record
     = [PRESENT, PRESENT, ABSENT, PRESENT, EXCUSED, UNDEFINED, ABSENT, ABSENT]"
    by (simp add: statuses_in_def demo_term_record_def period)
  have c7: "spec_counts [PRESENT, PRESENT, ABSENT, PRESENT, EXCUSED, UNDEFINED, ABSENT, ABSENT]
              = \<lparr> present = 3, excused = 1, absent = 3, total_count = 7 \<rparr>"
    by (simp add: spec_counts_def)
  have p7: "spec_percentage \<lparr> present = 3, excused = 1, absent = 3, total_count = 7 \<rparr> = 400 / 7"
    by (simp add: spec_percentage_def)
  have l7: "level (400 / 7) = CRITICAL" by (simp add: level_def)
  from a b s c7 p7 l7 show ?thesis by (simp only: simp_thms)
qed

subsection \<open>Deleting\<close>

text \<open>
  C9, as the claim states it, fails for the deletion of a class: when the remote delete
  of class c1 fails and the reload finds neither the remote source nor a cache, the class
  and its students stay removed.
\<close>

theorem delete_class_no_rollback_counterexample:
  "isOnline demo_state
   \<and> classToDelete demo_state = Some \<lparr> c_id = ''c1'', c_name = ''1A'' \<rparr>
   \<and> map c_id (classes demo_state) = [''c1'', ''c2'']
   \<and> map c_id (classes (executeDeleteClass (\<lambda>_. False) loadData_no_source demo_state)) = [''c2'']
   \<and> map s_id (allStudents (executeDeleteClass (\<lambda>_. False) loadData_no_source demo_state)) = [''s3'']
   \<and> attendance (executeDeleteClass (\<lambda>_. False) loadData_no_source demo_state) ''s1'' = None
   \<and> attendance demo_state ''s1'' = Some [(''2025-03-05'', [PRESENT, ABSENT])]"
  by (simp add: executeDeleteClass_def deleteClass_local_def loadData_no_source_def demo_state_def
                js_String_def Let_def)

lemma fold_delete_keys:
  "fold (\<lambda>sid newAtt. newAtt(sid := None)) ids att k = (if k \<in> set ids then None else att k)"
  by (induction ids arbitrary: att) auto

text \<open>
  C9 amended: both deletions remove locally first (the student and the attendance of
  the student; the class, the students of the class and their attendance). When the
  remote delete of a student fails, the roster and the attendance store are put back as
  they were and the state is the one before the deletion. When the remote delete of a
  class fails, no snapshot is put back: the state is what the reload from the data source
  makes of the state after the removal.
\<close>

theorem delete_failure_recovery:
  "allStudents (deleteStudent_local sid s) = filter (\<lambda>x. s_id x \<noteq> sid) (allStudents s)
   \<and> attendance (deleteStudent_local sid s) sid = None
   \<and> (isOnline s \<and> \<not> remote_ok sid \<longrightarrow> handleDeleteStudent remote_ok sid s = s)
   \<and> (isOnline s \<and> remote_ok sid \<longrightarrow> handleDeleteStudent remote_ok sid s = deleteStudent_local sid s)
   \<and> (classToDelete s = Some cls \<longrightarrow>
        classes (deleteClass_local (c_id cls) s) = filter (\<lambda>c. c_id c \<noteq> c_id cls) (classes s)
        \<and> allStudents (deleteClass_local (c_id cls) s)
            = filter (\<lambda>x. js_String (s_classId x) \<noteq> c_id cls) (allStudents s)
        \<and> (\<forall>x \<in> set (allStudents s). js_String (s_classId x) = c_id cls \<longrightarrow>
              attendance (deleteClass_local (c_id cls) s) (s_id x) = None)
        \<and> (isOnline s \<and> \<not> remote_ok (c_id cls) \<longrightarrow>
              executeDeleteClass remote_ok loadData s = loadData (deleteClass_local (c_id cls) s))
        \<and> (isOnline s \<and> remote_ok (c_id cls) \<longrightarrow>
              executeDeleteClass remote_ok loadData s = deleteClass_local (c_id cls) s))"
  by (auto simp: deleteStudent_local_def handleDeleteStudent_def executeDeleteClass_def
                 deleteClass_local_def Let_def fold_delete_keys)

theorem delete_failure_recovery_witness:
  "isOnline demo_state
   \<and> handleDeleteStudent (\<lambda>_. False) ''s1'' demo_state = demo_state
   \<and> map s_id (allStudents (deleteStudent_local ''s1'' demo_state)) = [''s2'', ''s3'']
   \<and> attendance (deleteStudent_local ''s1'' demo_state) ''s1'' = None
   \<and> handleDeleteStudent (\<lambda>_. True) ''s1'' demo_state = deleteStudent_local ''s1'' demo_state
   \<and> classToDelete demo_state = Some \<lparr> c_id = ''c1'', c_name = ''1A'' \<rparr>
   \<and> \<lparr> s_id = ''s1'', s_name = ''Ana'', s_status = ACTIVE, s_classId = Some ''c1'' \<rparr>
        \<in> set (allStudents demo_state)
   \<and> attendance (deleteClass_local ''c1'' demo_state) ''s1'' = None
   \<and> executeDeleteClass (\<lambda>_. False) loadData_no_source demo_state
       = loadData_no_source (deleteClass_local ''c1'' demo_state)
   \<and> executeDeleteClass (\<lambda>_. True) loadData_no_source demo_state
       = deleteClass_local ''c1'' demo_state"
proof -
  have h: "isOnline demo_state"
          "classToDelete demo_state = Some \<lparr> c_id = ''c1'', c_name = ''1A'' \<rparr>"
          "\<lparr> s_id = ''s1'', s_name = ''Ana'', s_status = ACTIVE, s_classId = Some ''c1'' \<rparr>
             \<in> set (allStudents demo_state)"
          "map s_id (filter (\<lambda>x. s_id x \<noteq> ''s1'') (allStudents demo_state)) = [''s2'', ''s3'']"
    by (simp_all add: demo_state_def)
  have j: "js_String (s_classId \<lparr> s_id = ''s1'', s_name = ''Ana'', s_status = ACTIVE,
                                   s_classId = Some ''c1'' \<rparr>) = ''c1''"
    by (simp add: js_String_def)
  note f = delete_failure_recovery
             [of "''s1''" demo_state "\<lambda>_. False" "\<lparr> c_id = ''c1'', c_name = ''1A'' \<rparr>"
                 loadData_no_source]
  note t = delete_failure_recovery
             [of "''s1''" demo_state "\<lambda>_. True" "\<lparr> c_id = ''c1'', c_name = ''1A'' \<rparr>"
                 loadData_no_source]
  from h(1,2) f have f1: "handleDeleteStudent (\<lambda>_. False) ''s1'' demo_state = demo_state"
    and f2: "executeDeleteClass (\<lambda>_. False) loadData_no_source demo_state
               = loadData_no_source (deleteClass_local ''c1'' demo_state)"
    and f3: "\<forall>x \<in> set (allStudents demo_state). js_String (s_classId x) = ''c1'' \<longrightarrow>
               attendance (deleteClass_local ''c1'' demo_state) (s_id x) = None"
    and f4: "allStudents (deleteStudent_local ''s1'' demo_state)
               = filter (\<lambda>x. s_id x \<noteq> ''s1'') (allStudents demo_state)"
    and f5: "attendance (deleteStudent_local ''s1'' demo_state) ''s1'' = None"
    by simp_all
  from h(1,2) t have t1: "handleDeleteStudent (\<lambda>_. True) ''s1'' demo_state
                            = deleteStudent_local ''s1'' demo_state"
    and t2: "executeDeleteClass (\<lambda>_. True) loadData_no_source demo_state
               = deleteClass_local ''c1'' demo_state"
    by simp_all
  from f3 h(3) j have f6: "attendance (deleteClass_local ''c1'' demo_state) ''s1'' = None"
    by fastforce
  from h f1 f2 f4 f5 f6 t1 t2 show ?thesis by simp
qed

subsection \<open>Dates and indices on the wire\<close>

lemma digit_not_special:
  "is_digit ch \<Longrightarrow> ch \<noteq> CHR ''-'' \<and> ch \<noteq> CHR ''/'' \<and> ch \<noteq> CHR ''+'' \<and> \<not> is_space ch \<and> \<not> is_sep ch"
  by (auto simp: is_digit_def is_space_def is_sep_def)

lemma is_sep_hyphen [simp]: "is_sep CHR ''-''" "is_sep CHR ''/''"
  by (simp_all add: is_sep_def)

lemma length_ten:
  assumes "length s = 10"
  shows "s = [s ! 0, s ! 1, s ! 2, s ! 3, s ! 4, s ! 5, s ! 6, s ! 7, s ! 8, s ! 9]"
proof (rule nth_equalityI)
  show "length s = length [s ! 0, s ! 1, s ! 2, s ! 3, s ! 4, s ! 5, s ! 6, s ! 7, s ! 8, s ! 9]"
    using assms by simp
  fix k assume "k < length s"
  with assms have "k \<in> {0, 1, 2, 3, 4, 5, 6, 7, 8, 9}" by auto
  then show "s ! k = [s ! 0, s ! 1, s ! 2, s ! 3, s ! 4, s ! 5, s ! 6, s ! 7, s ! 8, s ! 9] ! k"
    by auto
qed

lemma toIsoDate_br:
  assumes "is_digit d1" "is_digit d2" "is_digit m1" "is_digit m2"
    "is_digit y1" "is_digit y2" "is_digit y3" "is_digit y4" "is_sep h1" "is_sep h2"
  shows "toIsoDate [d1, d2, h1, m1, m2, h2, y1, y2, y3, y4]
           = [y1, y2, y3, y4, CHR ''-'', m1, m2, CHR ''-'', d1, d2]"
proof -
  let ?d = "[d1, d2, h1, m1, m2, h2, y1, y2, y3, y4]"
  from assms have ns: "\<not> is_space d1" "\<not> is_space y4" "m2 \<noteq> CHR ''-''"
    "\<not> is_sep d1" "\<not> is_sep d2" "\<not> is_sep m1" "\<not> is_sep m2"
    "\<not> is_sep y1" "\<not> is_sep y2" "\<not> is_sep y3" "\<not> is_sep y4"
    by (simp_all add: digit_not_special)
  have trim: "js_trim ?d = ?d" using ns by (simp add: js_trim_def)
  have iso: "\<not> matches_iso ?d" using ns by (simp add: matches_iso_def)
  have br: "matches_br ?d" using assms by (simp add: matches_br_def)
  have sp: "split_on is_sep ?d = [[d1, d2], [m1, m2], [y1, y2, y3, y4]]"
    using ns assms by simp
  show ?thesis
    by (simp add: toIsoDate_def trim iso br sp Let_def
             del: split_on.simps)
qed

lemma toBrDate_iso:
  assumes "is_digit d1" "is_digit d2" "is_digit m1" "is_digit m2"
    "is_digit y1" "is_digit y2" "is_digit y3" "is_digit y4"
  shows "toBrDate [y1, y2, y3, y4, CHR ''-'', m1, m2, CHR ''-'', d1, d2]
           = [d1, d2, CHR ''-'', m1, m2, CHR ''-'', y1, y2, y3, y4]"
proof -
  from assms have ns: "d1 \<noteq> CHR ''-''" "d2 \<noteq> CHR ''-''" "m1 \<noteq> CHR ''-''" "m2 \<noteq> CHR ''-''"
    "y1 \<noteq> CHR ''-''" "y2 \<noteq> CHR ''-''" "y3 \<noteq> CHR ''-''" "y4 \<noteq> CHR ''-''"
    by (simp_all add: digit_not_special)
  have sp: "split_on (\<lambda>ch. ch = CHR ''-'') [y1, y2, y3, y4, CHR ''-'', m1, m2, CHR ''-'', d1, d2]
              = [[y1, y2, y3, y4], [m1, m2], [d1, d2]]"
    using ns by simp
  show ?thesis by (simp add: toBrDate_def sp Let_def del: split_on.simps)
qed

lemma br_iso_br:
  assumes "matches_br d" "d ! 2 = CHR ''-''" "d ! 5 = CHR ''-''"
  shows "matches_iso (toIsoDate d)" and "toBrDate (toIsoDate d) = d"
proof -
  define d1 d2 m1 m2 where dm: "d1 = d ! 0" "d2 = d ! 1" "m1 = d ! 3" "m2 = d ! 4"
  define y1 y2 y3 y4 where y: "y1 = d ! 6" "y2 = d ! 7" "y3 = d ! 8" "y4 = d ! 9"
  from assms(1) have len: "length d = 10" by (simp add: matches_br_def)
  have d: "d = [d1, d2, CHR ''-'', m1, m2, CHR ''-'', y1, y2, y3, y4]"
    using length_ten [OF len] assms(2,3) unfolding dm y by simp
  have dg: "is_digit d1" "is_digit d2" "is_digit m1" "is_digit m2"
    "is_digit y1" "is_digit y2" "is_digit y3" "is_digit y4"
    using assms(1) unfolding dm y matches_br_def by simp_all
  have "toIsoDate [d1, d2, CHR ''-'', m1, m2, CHR ''-'', y1, y2, y3, y4]
          = [y1, y2, y3, y4, CHR ''-'', m1, m2, CHR ''-'', d1, d2]"
    using dg is_sep_hyphen(1) is_sep_hyphen(1) by (rule toIsoDate_br)
  then have iso: "toIsoDate d = [y1, y2, y3, y4, CHR ''-'', m1, m2, CHR ''-'', d1, d2]"
    by (simp only: d [symmetric])
  have "matches_iso [y1, y2, y3, y4, CHR ''-'', m1, m2, CHR ''-'', d1, d2]"
    using dg by (simp add: matches_iso_def)
  then show "matches_iso (toIsoDate d)" by (simp only: iso)
  have "toBrDate [y1, y2, y3, y4, CHR ''-'', m1, m2, CHR ''-'', d1, d2]
          = [d1, d2, CHR ''-'', m1, m2, CHR ''-'', y1, y2, y3, y4]"
    using dg by (rule toBrDate_iso)
  then show "toBrDate (toIsoDate d) = d" by (simp only: iso d [symmetric])
qed

lemma iso_br_iso:
  assumes "matches_iso i"
  shows "toIsoDate (toBrDate i) = i"
proof -
  define y1 y2 y3 y4 where y: "y1 = i ! 0" "y2 = i ! 1" "y3 = i ! 2" "y4 = i ! 3"
  define m1 m2 d1 d2 where dm: "m1 = i ! 5" "m2 = i ! 6" "d1 = i ! 8" "d2 = i ! 9"
  from assms have len: "length i = 10" and hy: "i ! 4 = CHR ''-''" "i ! 7 = CHR ''-''"
    by (simp_all add: matches_iso_def)
  have i: "i = [y1, y2, y3, y4, CHR ''-'', m1, m2, CHR ''-'', d1, d2]"
    using length_ten [OF len] hy unfolding dm y by simp
  have dg: "is_digit d1" "is_digit d2" "is_digit m1" "is_digit m2"
    "is_digit y1" "is_digit y2" "is_digit y3" "is_digit y4"
    using assms unfolding dm y matches_iso_def by simp_all
  have "toBrDate [y1, y2, y3, y4, CHR ''-'', m1, m2, CHR ''-'', d1, d2]
          = [d1, d2, CHR ''-'', m1, m2, CHR ''-'', y1, y2, y3, y4]"
    using dg by (rule toBrDate_iso)
  moreover have "toIsoDate [d1, d2, CHR ''-'', m1, m2, CHR ''-'', y1, y2, y3, y4]
          = [y1, y2, y3, y4, CHR ''-'', m1, m2, CHR ''-'', d1, d2]"
    using dg is_sep_hyphen(1) is_sep_hyphen(1) by (rule toIsoDate_br)
  ultimately have "toIsoDate (toBrDate [y1, y2, y3, y4, CHR ''-'', m1, m2, CHR ''-'', d1, d2])
          = [y1, y2, y3, y4, CHR ''-'', m1, m2, CHR ''-'', d1, d2]"
    by (simp only:)
  then show ?thesis by (simp only: i [symmetric])
qed

lemma br_iso_hyphens:
  assumes "matches_br d"
  shows "toBrDate (toIsoDate d) = d[2 := CHR ''-'', 5 := CHR ''-'']"
proof -
  define d1 d2 m1 m2 where dm: "d1 = d ! 0" "d2 = d ! 1" "m1 = d ! 3" "m2 = d ! 4"
  define y1 y2 y3 y4 where y: "y1 = d ! 6" "y2 = d ! 7" "y3 = d ! 8" "y4 = d ! 9"
  define h1 h2 where h: "h1 = d ! 2" "h2 = d ! 5"
  from assms have len: "length d = 10" by (simp add: matches_br_def)
  have d: "d = [d1, d2, h1, m1, m2, h2, y1, y2, y3, y4]"
    using length_ten [OF len] unfolding dm y h by simp
  have dg: "is_digit d1" "is_digit d2" "is_digit m1" "is_digit m2"
    "is_digit y1" "is_digit y2" "is_digit y3" "is_digit y4"
    using assms unfolding dm y matches_br_def by simp_all
  have sp: "is_sep h1" "is_sep h2"
    using assms unfolding h matches_br_def by simp_all
  have "toIsoDate [d1, d2, h1, m1, m2, h2, y1, y2, y3, y4]
          = [y1, y2, y3, y4, CHR ''-'', m1, m2, CHR ''-'', d1, d2]"
    using dg sp by (rule toIsoDate_br)
  moreover have "toBrDate [y1, y2, y3, y4, CHR ''-'', m1, m2, CHR ''-'', d1, d2]
          = [d1, d2, CHR ''-'', m1, m2, CHR ''-'', y1, y2, y3, y4]"
    using dg by (rule toBrDate_iso)
  ultimately have "toBrDate (toIsoDate [d1, d2, h1, m1, m2, h2, y1, y2, y3, y4])
          = [d1, d2, CHR ''-'', m1, m2, CHR ''-'', y1, y2, y3, y4]"
    by (simp only:)
  moreover have "[d1, d2, h1, m1, m2, h2, y1, y2, y3, y4][2 := CHR ''-'', 5 := CHR ''-'']
          = [d1, d2, CHR ''-'', m1, m2, CHR ''-'', y1, y2, y3, y4]"
    by simp
  ultimately have "toBrDate (toIsoDate [d1, d2, h1, m1, m2, h2, y1, y2, y3, y4])
          = [d1, d2, h1, m1, m2, h2, y1, y2, y3, y4][2 := CHR ''-'', 5 := CHR ''-'']"
    by (simp only:)
  then show ?thesis by (simp only: d [symmetric])
qed

subsection \<open>Lesson indices\<close>

lemma digit_char_digit:
  assumes "k < 10"
  shows "is_digit (digit_char k)" and "digit_val (digit_char k) = k"
proof -
  from assms have "k \<in> {0, 1, 2, 3, 4, 5, 6, 7, 8, 9}" by auto
  then show "is_digit (digit_char k)" "digit_val (digit_char k) = k"
    by (auto simp: is_digit_def digit_char_def digit_val_def)
qed

lemma nat_str_digits: "nat_str n \<noteq> [] \<and> (\<forall>ch \<in> set (nat_str n). is_digit ch)"
proof (induction n rule: nat_str.induct)
  case (1 n)
  show ?case
  proof (cases "n < 10")
    case True
    then show ?thesis by (subst (1 2) nat_str.simps) (simp add: digit_char_digit)
  next
    case False
    with 1 show ?thesis by (subst (1 2) nat_str.simps) (simp add: digit_char_digit)
  qed
qed

lemma digits_value_snoc: "digits_value (ds @ [ch]) = 10 * digits_value ds + digit_val ch"
  by (simp add: digits_value_def)

lemma digits_value_nat_str: "digits_value (nat_str n) = n"
proof (induction n rule: nat_str.induct)
  case (1 n)
  show ?case
  proof (cases "n < 10")
    case True
    then show ?thesis by (subst nat_str.simps) (simp add: digits_value_def digit_char_digit)
  next
    case False
    with 1 show ?thesis by (subst nat_str.simps) (simp add: digits_value_snoc digit_char_digit)
  qed
qed

lemma parseInt10_nat_str: "parseInt10 (nat_str n) = Some (int n)"
proof -
  from nat_str_digits [of n] obtain ch cs where s: "nat_str n = ch # cs"
    by (cases "nat_str n") auto
  from nat_str_digits [of n] have dg: "is_digit ch" and tw: "takeWhile is_digit cs = cs"
    by (simp_all add: s takeWhile_eq_all_conv)
  from dg have ns: "\<not> is_space ch" "ch \<noteq> CHR ''-''" "ch \<noteq> CHR ''+''"
    by (simp_all add: digit_not_special)
  have "parseInt10 (ch # cs) = Some (int (digits_value (ch # cs)))"
    using ns dg by (simp add: parseInt10_def Let_def tw)
  then show ?thesis using digits_value_nat_str [of n] by (simp add: s)
qed

lemma internal_index_less: "internal_index s < 20"
  by (auto simp: internal_index_def Let_def split: option.splits)

lemma internal_index_clamped:
  "parseInt10 s \<notin> Some ` {1..20} \<Longrightarrow> internal_index s = 0"
  by (auto simp: internal_index_def Let_def split: option.splits)

lemma internal_index_nat_str: "1 \<le> n \<Longrightarrow> n \<le> 20 \<Longrightarrow> internal_index (nat_str n) = n - 1"
  by (simp add: internal_index_def parseInt10_nat_str Let_def)

subsection \<open>Ingest\<close>

lemma proto_key_length: "proto_key k \<Longrightarrow> length k \<noteq> 10"
  by (auto simp: proto_key_def)

lemma iso_not_proto_key: "matches_iso k \<Longrightarrow> \<not> proto_key k"
  using proto_key_length [of k] by (auto simp: matches_iso_def)

lemma ingest_record_stored:
  assumes "ingest_date rec \<noteq> []" "\<not> sees_inherited att (r_studentId rec) (ingest_date rec)"
  shows "\<exists>att'. ingest_record rec att = Inr att'
           \<and> cell_status att' (r_studentId rec) (ingest_date rec)
                 (internal_index (r_lessonIndex rec)) = r_status rec"
  using assms
  by (simp add: ingest_record_def Let_def cell_status_def map_of_js_put js_index_def
                length_pad_undefined)

lemma ingest_record_skipped: "ingest_date rec = [] \<Longrightarrow> ingest_record rec att = Inr att"
  by (simp add: ingest_record_def)

lemma ingest_date_missing:
  "r_date rec = None \<or> r_date rec = Some [] \<Longrightarrow> ingest_date rec = []"
  by (auto simp: ingest_date_def toIsoDate_def)

lemma transform_snoc:
  "transformAttendanceFromApi (recs @ [rec]) =
     (case transformAttendanceFromApi recs of
        Inl e \<Rightarrow> Inl e
      | Inr att \<Rightarrow> ingest_record rec att)"
  by (simp add: transformAttendanceFromApi_def)

lemma digits_literal [simp]:
  "is_digit CHR ''0''" "is_digit CHR ''1''" "is_digit CHR ''2''" "is_digit CHR ''3''"
  "is_digit CHR ''4''" "is_digit CHR ''5''" "is_digit CHR ''6''" "is_digit CHR ''7''"
  "is_digit CHR ''8''" "is_digit CHR ''9''"
  by (simp_all add: is_digit_def)

lemmas parse_defs = internal_index_def parseInt10_def is_space_def digits_value_def digit_val_def
  Let_def

text \<open>
  C7, as the claim states it, fails: a wire date with slashes is accepted on ingest but
  written back with hyphens, and a wire lesson index above 20 is written back as 1.
\<close>

theorem slash_date_not_reproduced_counterexample:
  "ingest_date \<lparr> r_studentId = ''s1'', r_date = Some ''05/03/2025'', r_lessonIndex = ''25'',
                  r_status = PRESENT \<rparr> = ''2025-03-05''
   \<and> internal_index ''25'' = 0
   \<and> wire_record \<lparr> studentId = ''s1'', date = ''2025-03-05'', lessonIndex = 0, status = PRESENT,
                     subject = None, topic = None \<rparr>
       = \<lparr> w_studentId = ''s1'', w_date = ''05-03-2025'', w_lessonIndex = 1, w_status = PRESENT,
           w_subject = [], w_notes = [] \<rparr>
   \<and> ''05-03-2025'' \<noteq> ''05/03/2025''"
proof -
  have "toIsoDate ''05/03/2025'' = ''2025-03-05''"
    by (rule toIsoDate_br) simp_all
  moreover have "toBrDate ''2025-03-05'' = ''05-03-2025''"
    by (rule toBrDate_iso) simp_all
  moreover have "internal_index ''25'' = 0"
    by (simp add: parse_defs)
  ultimately show ?thesis
    by (simp add: ingest_date_def wire_record_def or_empty_def)
qed

text \<open>
  C7 amended: for a wire record whose date is two digits, a hyphen, two digits, a hyphen
  and four digits and whose lesson index is an integer from 1 to 20, the ingest stores
  the status at the ISO date and at the index minus one (for a student id that is a key
  of the store or names no property of the prototype of objects), and the record written
  back for that cell carries the original date and lesson index; the conversion of an ISO
  date to the wire and back, and of an internal index below 20 to the wire and back, give
  the value they started from. A date of the same shape with slashes is written back
  with hyphens in their place, and a lesson index that does not parse to an integer from
  1 to 20 is written back as 1.
\<close>

theorem wire_round_trip:
  assumes "matches_br d" "d ! 2 = CHR ''-''" "d ! 5 = CHR ''-''" "1 \<le> n" "n \<le> 20"
  shows
    "ingest_date \<lparr> r_studentId = sid, r_date = Some d, r_lessonIndex = nat_str n, r_status = v \<rparr>
       = toIsoDate d
     \<and> matches_iso (toIsoDate d)
     \<and> (\<not> (att sid = None \<and> proto_key sid) \<longrightarrow>
          (\<exists>att'. ingest_record \<lparr> r_studentId = sid, r_date = Some d, r_lessonIndex = nat_str n,
                                   r_status = v \<rparr> att = Inr att'
             \<and> cell_status att' sid (toIsoDate d) (n - 1) = v))
     \<and> wire_record \<lparr> studentId = sid, date = toIsoDate d, lessonIndex = internal_index (nat_str n),
                       status = v, subject = sj, topic = tp \<rparr>
         = \<lparr> w_studentId = sid, w_date = d, w_lessonIndex = n, w_status = v,
             w_subject = or_empty sj, w_notes = or_empty tp \<rparr>
     \<and> (matches_iso i \<longrightarrow> toIsoDate (toBrDate i) = i)
     \<and> (k < 20 \<longrightarrow> internal_index (nat_str (k + 1)) = k)
     \<and> (matches_br d' \<longrightarrow> toBrDate (toIsoDate d') = d'[2 := CHR ''-'', 5 := CHR ''-''])
     \<and> (parseInt10 s \<notin> Some ` {1..20} \<longrightarrow>
          w_lessonIndex (wire_record \<lparr> studentId = sid, date = x, lessonIndex = internal_index s,
                                        status = v, subject = sj, topic = tp \<rparr>) = 1)"
proof (intro conjI impI)
  let ?rec = "\<lparr> r_studentId = sid, r_date = Some d, r_lessonIndex = nat_str n, r_status = v \<rparr>"
  show dt: "ingest_date ?rec = toIsoDate d" by (simp add: ingest_date_def)
  show iso: "matches_iso (toIsoDate d)" using assms(1-3) by (rule br_iso_br(1))
  have idx: "internal_index (nat_str n) = n - 1" using assms(4,5) by (rule internal_index_nat_str)
  from iso have ne: "ingest_date ?rec \<noteq> []" by (auto simp: dt matches_iso_def)
  show "\<exists>att'. ingest_record ?rec att = Inr att' \<and> cell_status att' sid (toIsoDate d) (n - 1) = v"
    if "\<not> (att sid = None \<and> proto_key sid)"
  proof -
    from that iso_not_proto_key [OF iso]
    have "\<not> sees_inherited att (r_studentId ?rec) (ingest_date ?rec)"
      by (simp add: sees_inherited_def dt)
    from ingest_record_stored [OF ne this] show ?thesis by (simp add: dt idx)
  qed
  show "wire_record \<lparr> studentId = sid, date = toIsoDate d, lessonIndex = internal_index (nat_str n),
                       status = v, subject = sj, topic = tp \<rparr>
         = \<lparr> w_studentId = sid, w_date = d, w_lessonIndex = n, w_status = v,
             w_subject = or_empty sj, w_notes = or_empty tp \<rparr>"
    using assms(4) by (simp add: wire_record_def idx br_iso_br(2) [OF assms(1-3)])
  show "toIsoDate (toBrDate i) = i" if "matches_iso i" using that by (rule iso_br_iso)
  show "internal_index (nat_str (k + 1)) = k" if "k < 20"
    using that by (simp add: internal_index_nat_str)
  show "toBrDate (toIsoDate d') = d'[2 := CHR ''-'', 5 := CHR ''-'']" if "matches_br d'"
    using that by (rule br_iso_hyphens)
  show "w_lessonIndex (wire_record \<lparr> studentId = sid, date = x, lessonIndex = internal_index s,
                                        status = v, subject = sj, topic = tp \<rparr>) = 1"
    if "parseInt10 s \<notin> Some ` {1..20}"
    using internal_index_clamped [OF that] by (simp add: wire_record_def)
qed

theorem wire_round_trip_witness:
  "matches_br ''05-03-2025'' \<and> ''05-03-2025'' ! 2 = CHR ''-'' \<and> ''05-03-2025'' ! 5 = CHR ''-''
   \<and> (1::nat) \<le> 1 \<and> (1::nat) \<le> 20 \<and> nat_str 1 = ''1''
   \<and> ingest_date demo_raw = ''2025-03-05''
   \<and> \<not> ((Map.empty :: ClassAttendance) ''s1'' = None \<and> proto_key ''s1'')
   \<and> (\<exists>att'. transformAttendanceFromApi [demo_raw] = Inr att'
          \<and> cell_status att' ''s1'' ''2025-03-05'' 0 = PRESENT)
   \<and> wire_record \<lparr> studentId = ''s1'', date = ''2025-03-05'', lessonIndex = internal_index ''1'',
                     status = PRESENT, subject = None, topic = None \<rparr>
       = \<lparr> w_studentId = ''s1'', w_date = ''05-03-2025'', w_lessonIndex = 1, w_status = PRESENT,
           w_subject = [], w_notes = [] \<rparr>
   \<and> matches_iso ''2025-03-05'' \<and> toIsoDate (toBrDate ''2025-03-05'') = ''2025-03-05''
   \<and> (0::nat) < 20 \<and> internal_index (nat_str (0 + 1)) = 0
   \<and> matches_br ''05/03/2025'' \<and> toBrDate (toIsoDate ''05/03/2025'') = ''05-03-2025''
   \<and> parseInt10 ''25'' \<notin> Some ` {1..20}
   \<and> w_lessonIndex (wire_record \<lparr> studentId = ''s1'', date = ''2025-03-05'',
                                     lessonIndex = internal_index ''25'', status = PRESENT,
                                     subject = None, topic = None \<rparr>) = 1"
proof -
  have h: "matches_br ''05-03-2025''" "''05-03-2025'' ! 2 = CHR ''-''" "''05-03-2025'' ! 5 = CHR ''-''"
          "(1::nat) \<le> 1" "(1::nat) \<le> 20"
    by (simp_all add: matches_br_def)
  have i: "matches_iso ''2025-03-05''" by (simp add: matches_iso_def)
  have sl: "matches_br ''05/03/2025''" by (simp add: matches_br_def)
  have p: "parseInt10 ''25'' = Some 25" by (simp add: parse_defs)
  have q: "parseInt10 ''25'' \<notin> Some ` {1..20}" unfolding p by auto
  have k: "\<not> ((Map.empty :: ClassAttendance) ''s1'' = None \<and> proto_key ''s1'')"
    by (simp add: proto_key_def)
  have n: "nat_str 1 = ''1''" by (subst nat_str.simps) (simp add: digit_char_def)
  have iso: "toIsoDate ''05-03-2025'' = ''2025-03-05''" by (rule toIsoDate_br) simp_all
  have r: "demo_raw = \<lparr> r_studentId = ''s1'', r_date = Some ''05-03-2025'',
                          r_lessonIndex = nat_str 1, r_status = PRESENT \<rparr>"
    unfolding n demo_raw_def by (rule refl)
  have t: "transformAttendanceFromApi [demo_raw] = ingest_record demo_raw Map.empty"
    by (simp add: transformAttendanceFromApi_def)
  note w = wire_round_trip [OF h, of "''s1''" PRESENT Map.empty None None "''2025-03-05''" 0
                              "''05/03/2025''" "''25''" "''2025-03-05''"]
  from w have "ingest_date \<lparr> r_studentId = ''s1'', r_date = Some ''05-03-2025'',
                   r_lessonIndex = nat_str 1, r_status = PRESENT \<rparr> = toIsoDate ''05-03-2025''"
    by blast
  then have w1: "ingest_date demo_raw = ''2025-03-05''" by (simp only: r [symmetric] iso)
  from w k have "\<exists>att'. ingest_record \<lparr> r_studentId = ''s1'', r_date = Some ''05-03-2025'',
                           r_lessonIndex = nat_str 1, r_status = PRESENT \<rparr> Map.empty = Inr att'
          \<and> cell_status att' ''s1'' (toIsoDate ''05-03-2025'') (1 - 1) = PRESENT"
    by blast
  then have w2: "\<exists>att'. transformAttendanceFromApi [demo_raw] = Inr att'
          \<and> cell_status att' ''s1'' ''2025-03-05'' 0 = PRESENT"
    by (simp only: r [symmetric] iso t diff_self_eq_0)
  from w have "wire_record \<lparr> studentId = ''s1'', date = toIsoDate ''05-03-2025'',
                     lessonIndex = internal_index (nat_str 1),
                     status = PRESENT, subject = None, topic = None \<rparr>
       = \<lparr> w_studentId = ''s1'', w_date = ''05-03-2025'', w_lessonIndex = 1, w_status = PRESENT,
           w_subject = or_empty None, w_notes = or_empty None \<rparr>"
    by blast
  then have w3: "wire_record \<lparr> studentId = ''s1'', date = ''2025-03-05'', lessonIndex = internal_index ''1'',
                     status = PRESENT, subject = None, topic = None \<rparr>
       = \<lparr> w_studentId = ''s1'', w_date = ''05-03-2025'', w_lessonIndex = 1, w_status = PRESENT,
           w_subject = [], w_notes = [] \<rparr>"
    unfolding iso n or_empty_def by simp
  from w i have w4: "toIsoDate (toBrDate ''2025-03-05'') = ''2025-03-05''" by blast
  from w have w5: "internal_index (nat_str (0 + 1)) = 0" by simp
  from w sl have "toBrDate (toIsoDate ''05/03/2025'') = ''05/03/2025''[2 := CHR ''-'', 5 := CHR ''-'']"
    by blast
  then have w6: "toBrDate (toIsoDate ''05/03/2025'') = ''05-03-2025''" by simp
  from w q have w7: "w_lessonIndex (wire_record \<lparr> studentId = ''s1'', date = ''2025-03-05'',
                                     lessonIndex = internal_index ''25'', status = PRESENT,
                                     subject = None, topic = None \<rparr>) = 1"
    by blast
  from h i n k sl q w1 w2 w3 w4 w5 w6 w7 show ?thesis by (simp only: simp_thms)
qed

text \<open>
  C10, as the claim states it, fails: a raw record whose lesson index is out of range is
  still dropped when its date is empty.
\<close>

theorem ingest_dropped_counterexample:
  "parseInt10 (r_lessonIndex demo_undated) = Some 99
   \<and> ingest_date demo_undated = []
   \<and> transformAttendanceFromApi [demo_undated] = Inr Map.empty"
  by (simp add: demo_undated_def ingest_date_def toIsoDate_def transformAttendanceFromApi_def
                ingest_record_def parse_defs)

text \<open>
  C10 amended: a raw record whose normalised date is not empty, and whose student id and
  date are keys of the store or name no property of the prototype of objects, is never
  dropped, whatever its lesson index: its status is stored at an internal slot between 0
  and 19, and at slot 0 when the lesson index does not parse to an integer from 1 to 20.
  A record whose date is empty or is not a string is skipped, whatever its lesson index.
\<close>

theorem ingest_index_clamped:
  "internal_index (r_lessonIndex rec) < 20
   \<and> (parseInt10 (r_lessonIndex rec) \<notin> Some ` {1..20} \<longrightarrow> internal_index (r_lessonIndex rec) = 0)
   \<and> (ingest_date rec \<noteq> [] \<and> \<not> sees_inherited att (r_studentId rec) (ingest_date rec) \<longrightarrow>
        (\<exists>att'. ingest_record rec att = Inr att'
           \<and> cell_status att' (r_studentId rec) (ingest_date rec)
                 (internal_index (r_lessonIndex rec)) = r_status rec
           \<and> (parseInt10 (r_lessonIndex rec) \<notin> Some ` {1..20} \<longrightarrow>
                 cell_status att' (r_studentId rec) (ingest_date rec) 0 = r_status rec)))
   \<and> (r_date rec = None \<or> r_date rec = Some [] \<longrightarrow> ingest_record rec att = Inr att)
   \<and> (transformAttendanceFromApi recs = Inr att \<longrightarrow>
        transformAttendanceFromApi (recs @ [rec]) = ingest_record rec att)"
proof (intro conjI impI)
  show "internal_index (r_lessonIndex rec) < 20" by (rule internal_index_less)
  show "internal_index (r_lessonIndex rec) = 0" if "parseInt10 (r_lessonIndex rec) \<notin> Some ` {1..20}"
    using that by (rule internal_index_clamped)
  show "\<exists>att'. ingest_record rec att = Inr att'
           \<and> cell_status att' (r_studentId rec) (ingest_date rec)
                 (internal_index (r_lessonIndex rec)) = r_status rec
           \<and> (parseInt10 (r_lessonIndex rec) \<notin> Some ` {1..20} \<longrightarrow>
                 cell_status att' (r_studentId rec) (ingest_date rec) 0 = r_status rec)"
    if "ingest_date rec \<noteq> [] \<and> \<not> sees_inherited att (r_studentId rec) (ingest_date rec)"
    using ingest_record_stored [of rec att] that internal_index_clamped [of "r_lessonIndex rec"]
    by auto
  show "ingest_record rec att = Inr att" if "r_date rec = None \<or> r_date rec = Some []"
    using that by (intro ingest_record_skipped ingest_date_missing)
  show "transformAttendanceFromApi (recs @ [rec]) = ingest_record rec att"
    if "transformAttendanceFromApi recs = Inr att"
    using that by (simp add: transform_snoc)
qed

theorem ingest_index_clamped_witness:
  "ingest_date demo_overflow \<noteq> []
   \<and> \<not> sees_inherited Map.empty (r_studentId demo_overflow) (ingest_date demo_overflow)
   \<and> parseInt10 (r_lessonIndex demo_overflow) \<notin> Some ` {1..20}
   \<and> internal_index (r_lessonIndex demo_overflow) = 0
   \<and> (\<exists>att'. ingest_record demo_overflow Map.empty = Inr att'
          \<and> cell_status att' ''s1'' ''2025-03-05'' 0 = ABSENT)
   \<and> transformAttendanceFromApi [] = Inr Map.empty
   \<and> transformAttendanceFromApi ([] @ [demo_overflow]) = ingest_record demo_overflow Map.empty
   \<and> r_date demo_no_date = None
   \<and> ingest_record demo_no_date Map.empty = Inr Map.empty
   \<and> r_date demo_undated = Some []
   \<and> ingest_record demo_undated Map.empty = Inr Map.empty"
proof -
  have iso: "toIsoDate ''05-03-2025'' = ''2025-03-05''" by (rule toIsoDate_br) simp_all
  have d: "ingest_date demo_overflow = ''2025-03-05''"
    by (simp add: ingest_date_def demo_overflow_def iso)
  then have h: "ingest_date demo_overflow \<noteq> []" by simp
  have s: "r_studentId demo_overflow = ''s1''" "r_status demo_overflow = ABSENT"
    by (simp_all add: demo_overflow_def)
  have ni: "\<not> sees_inherited Map.empty (r_studentId demo_overflow) (ingest_date demo_overflow)"
    by (simp add: sees_inherited_def proto_key_def s d)
  have p: "parseInt10 (r_lessonIndex demo_overflow) = Some 99"
    by (simp add: demo_overflow_def parse_defs)
  have q: "parseInt10 (r_lessonIndex demo_overflow) \<notin> Some ` {1..20}"
    unfolding p by auto
  have e: "transformAttendanceFromApi [] = Inr Map.empty"
    by (simp add: transformAttendanceFromApi_def)
  have nd: "r_date demo_no_date = None" by (simp add: demo_no_date_def)
  have ud: "r_date demo_undated = Some []" by (simp add: demo_undated_def)
  note w = ingest_index_clamped [of demo_overflow Map.empty "[]"]
  from w q have z: "internal_index (r_lessonIndex demo_overflow) = 0" by blast
  from w h ni have "\<exists>att'. ingest_record demo_overflow Map.empty = Inr att'
           \<and> cell_status att' (r_studentId demo_overflow) (ingest_date demo_overflow)
                 (internal_index (r_lessonIndex demo_overflow)) = r_status demo_overflow"
    by blast
  then have c1: "\<exists>att'. ingest_record demo_overflow Map.empty = Inr att'
          \<and> cell_status att' ''s1'' ''2025-03-05'' 0 = ABSENT"
    by (simp only: z d s)
  from w e have c2: "transformAttendanceFromApi ([] @ [demo_overflow])
                       = ingest_record demo_overflow Map.empty"
    by blast
  from ingest_index_clamped [of demo_no_date Map.empty "[]"] nd
  have c3: "ingest_record demo_no_date Map.empty = Inr Map.empty" by blast
  from ingest_index_clamped [of demo_undated Map.empty "[]"] ud
  have c4: "ingest_record demo_undated Map.empty = Inr Map.empty" by blast
  from h ni q z c1 e c2 nd c3 ud c4 show ?thesis by (simp only: simp_thms)
qed

end
